theory Spec2Isabelle
  imports Main "HOL-Library.Char_ord" "HOL-Library.List_Lexorder"
begin

section \<open>Text primitives of the Python runtime\<close>

text \<open>
  A Python \<open>str\<close> is modelled as a \<open>string\<close> whose characters are the code points
  0..255 (Latin-1); \<open>Optional[str]\<close> is \<open>string option\<close>. The character classes
  below are those of Python 3 on that range: \<open>\d\<close> is the decimal digits, \<open>\w\<close> is
  \<open>str.isalnum\<close> or the underscore, \<open>\s\<close> and \<open>str.strip\<close> use \<open>str.isspace\<close>.
  List order on strings is the lexicographic order on code points, which is how
  Python compares \<open>str\<close> values.
\<close>

definition code_in :: "nat \<Rightarrow> nat \<Rightarrow> char \<Rightarrow> bool" where
  "code_in lo hi c = (lo \<le> (of_char c :: nat) \<and> (of_char c :: nat) \<le> hi)"

definition is_digit :: "char \<Rightarrow> bool" where
  "is_digit c = code_in 48 57 c"

definition is_space :: "char \<Rightarrow> bool" where
  "is_space c = (code_in 9 13 c \<or> code_in 28 32 c \<or> code_in 133 133 c \<or> code_in 160 160 c)"

definition is_alnum :: "char \<Rightarrow> bool" where
  "is_alnum c = (code_in 48 57 c \<or> code_in 65 90 c \<or> code_in 97 122 c \<or>
     code_in 170 170 c \<or> code_in 178 179 c \<or> code_in 181 181 c \<or>
     code_in 185 186 c \<or> code_in 188 190 c \<or>
     code_in 192 214 c \<or> code_in 216 246 c \<or> code_in 248 255 c)"

definition is_word :: "char \<Rightarrow> bool" where
  "is_word c = (is_alnum c \<or> c = CHR ''_'')"

definition has_upper_case :: "char \<Rightarrow> bool" where
  "has_upper_case c = (code_in 65 90 c \<or> code_in 192 214 c \<or> code_in 216 222 c)"

definition has_lower_case :: "char \<Rightarrow> bool" where
  "has_lower_case c = (code_in 97 122 c \<or> code_in 224 246 c \<or> code_in 248 254 c)"

definition lower_char :: "char \<Rightarrow> char" where
  "lower_char c = (if has_upper_case c then char_of ((of_char c :: nat) + 32) else c)"

text \<open>
  The upper-case forms of \<open>U+00B5\<close> and \<open>U+00FF\<close> lie outside Latin-1; \<open>upper_char\<close>
  is only used for case-insensitive class tests, and no class of the patterns below
  holds either form, so they are left unchanged.
\<close>

definition upper_char :: "char \<Rightarrow> char" where
  "upper_char c = (if has_lower_case c then char_of ((of_char c :: nat) - 32) else c)"

definition lower :: "string \<Rightarrow> string" where
  "lower s = map lower_char s"

definition strip :: "string \<Rightarrow> string" where
  "strip s = rev (dropWhile is_space (rev (dropWhile is_space s)))"

text \<open>\<open>sub in s\<close> on strings: \<open>sub\<close> occurs in \<open>s\<close> as a contiguous substring.\<close>

fun starts_with :: "string \<Rightarrow> string \<Rightarrow> bool" where
  "starts_with [] s = True"
| "starts_with (a # as) [] = False"
| "starts_with (a # as) (c # cs) = (a = c \<and> starts_with as cs)"

fun contains :: "string \<Rightarrow> string \<Rightarrow> bool" where
  "contains sub [] = (sub = [])"
| "contains sub (c # cs) = (starts_with sub (c # cs) \<or> contains sub cs)"

text \<open>\<open>any(k in s for k in ks)\<close>.\<close>

definition any_in :: "string list \<Rightarrow> string \<Rightarrow> bool" where
  "any_in ks s = list_ex (\<lambda>k. contains k s) ks"

text \<open>\<open>s.split(sep)\<close> for a one-character separator: always at least one part.\<close>

fun split_on :: "char \<Rightarrow> string \<Rightarrow> string list" where
  "split_on sep [] = [[]]"
| "split_on sep (c # cs) =
     (case split_on sep cs of
        [] \<Rightarrow> [[c]]
      | p # ps \<Rightarrow> (if c = sep then [] # p # ps else (c # p) # ps))"

text \<open>\<open>sep.join(parts)\<close>.\<close>

fun join :: "string \<Rightarrow> string list \<Rightarrow> string" where
  "join sep [] = []"
| "join sep [p] = p"
| "join sep (p # q # ps) = p @ sep @ join sep (q # ps)"

text \<open>\<open>re.sub(r'\D', '', s)\<close>: the decimal digits of \<open>s\<close>, in order.\<close>

definition digits_of :: "string \<Rightarrow> string" where
  "digits_of s = filter is_digit s"

text \<open>Truthiness of an \<open>Optional[str]\<close>, and \<open>(t or "")\<close>.\<close>

definition truthy :: "string option \<Rightarrow> bool" where
  "truthy t = (case t of None \<Rightarrow> False | Some s \<Rightarrow> s \<noteq> [])"

definition or_empty :: "string option \<Rightarrow> string" where
  "or_empty t = (case t of None \<Rightarrow> [] | Some s \<Rightarrow> s)"

section \<open>Errors\<close>

datatype error = IndexError | AttributeError | CollaboratorError | HTTP500 error

definition str_index :: "string \<Rightarrow> nat \<Rightarrow> error + char" where
  "str_index s i = (if i < length s then Inr (s ! i) else Inl IndexError)"

section \<open>The regular expressions of \<open>re\<close> used by the extractor\<close>

text \<open>
  The backtracking matcher of \<open>re\<close> for the constructs the source's patterns use:
  literals, character sets, sequence, ordered alternation, greedy bounded and
  unbounded repetition, the word boundary \<open>\b\<close> and one capturing group. A match
  attempt returns every way the pattern can match at a position, in the order in
  which the backtracking engine tries them; the first is the match \<open>re\<close> reports.
\<close>

datatype citem = One char | Range char char | Digit | Word | Space

datatype regex =
    Lit string
  | Cls "citem list"
  | Seq regex regex
  | Alt regex regex
  | Rep nat nat regex
  | Many nat "citem list"
  | WordB
  | Grp regex

record mstate =
  prev :: "char option"
  taken :: string
  rest :: string
  cap :: "string option"

fun item_has :: "citem \<Rightarrow> char \<Rightarrow> bool" where
  "item_has (One a) c = (c = a)"
| "item_has (Range a b) c = (a \<le> c \<and> c \<le> b)"
| "item_has Digit c = is_digit c"
| "item_has Word c = is_word c"
| "item_has Space c = is_space c"

definition cls_has :: "bool \<Rightarrow> citem list \<Rightarrow> char \<Rightarrow> bool" where
  "cls_has ic items c =
     (list_ex (\<lambda>i. item_has i c) items \<or>
      (ic \<and> (list_ex (\<lambda>i. item_has i (lower_char c)) items \<or>
             list_ex (\<lambda>i. item_has i (upper_char c)) items)))"

definition lit_eq :: "bool \<Rightarrow> char \<Rightarrow> char \<Rightarrow> bool" where
  "lit_eq ic a c = (if ic then lower_char c = lower_char a else c = a)"

definition advance :: "mstate \<Rightarrow> char \<Rightarrow> string \<Rightarrow> mstate" where
  "advance st c cs = st\<lparr>prev := Some c, taken := c # taken st, rest := cs\<rparr>"

fun match_lit :: "bool \<Rightarrow> string \<Rightarrow> mstate \<Rightarrow> mstate list" where
  "match_lit ic [] st = [st]"
| "match_lit ic (a # as) st =
     (case rest st of
        [] \<Rightarrow> []
      | c # cs \<Rightarrow> (if lit_eq ic a c then match_lit ic as (advance st c cs) else []))"

definition match_cls :: "bool \<Rightarrow> citem list \<Rightarrow> mstate \<Rightarrow> mstate list" where
  "match_cls ic items st =
     (case rest st of
        [] \<Rightarrow> []
      | c # cs \<Rightarrow> (if cls_has ic items c then [advance st c cs] else []))"

definition word_before :: "mstate \<Rightarrow> bool" where
  "word_before st = (case prev st of None \<Rightarrow> False | Some c \<Rightarrow> is_word c)"

definition word_after :: "mstate \<Rightarrow> bool" where
  "word_after st = (case rest st of [] \<Rightarrow> False | c # cs \<Rightarrow> is_word c)"

text \<open>Greedy \<open>{lo,hi}\<close>: one more iteration is tried before stopping here.\<close>

fun rep_greedy :: "(mstate \<Rightarrow> mstate list) \<Rightarrow> nat \<Rightarrow> nat \<Rightarrow> mstate \<Rightarrow> mstate list" where
  "rep_greedy f lo 0 st = (if lo = 0 then [st] else [])"
| "rep_greedy f lo (Suc hi) st =
     concat (map (rep_greedy f (lo - 1) hi) (f st)) @ (if lo = 0 then [st] else [])"

definition capture :: "mstate \<Rightarrow> mstate \<Rightarrow> mstate" where
  "capture st0 st = st\<lparr>cap := Some (rev (take (length (taken st) - length (taken st0)) (taken st)))\<rparr>"

fun rmatch :: "bool \<Rightarrow> regex \<Rightarrow> mstate \<Rightarrow> mstate list" where
  "rmatch ic (Lit s) st = match_lit ic s st"
| "rmatch ic (Cls items) st = match_cls ic items st"
| "rmatch ic (Seq a b) st = concat (map (rmatch ic b) (rmatch ic a st))"
| "rmatch ic (Alt a b) st = rmatch ic a st @ rmatch ic b st"
| "rmatch ic (Rep lo hi a) st = rep_greedy (rmatch ic a) lo hi st"
| "rmatch ic (Many lo items) st = rep_greedy (match_cls ic items) lo (length (rest st)) st"
| "rmatch ic WordB st = (if word_before st \<noteq> word_after st then [st] else [])"
| "rmatch ic (Grp a) st = map (capture st) (rmatch ic a st)"

definition seqs :: "regex list \<Rightarrow> regex" where
  "seqs rs = foldr Seq rs (Lit [])"

definition alts :: "regex list \<Rightarrow> regex" where
  "alts rs = foldr Alt (butlast rs) (last rs)"

definition opt :: "regex \<Rightarrow> regex" where
  "opt r = Rep 0 1 r"

definition start_at :: "char option \<Rightarrow> string \<Rightarrow> mstate" where
  "start_at p s = \<lparr>prev = p, taken = [], rest = s, cap = None\<rparr>"

definition found :: "mstate \<Rightarrow> string" where
  "found st = (case cap st of None \<Rightarrow> rev (taken st) | Some g \<Rightarrow> g)"

text \<open>
  \<open>re.findall\<close>: scan left to right, report the first match at the leftmost position
  that has one (the group's text when the pattern has a group), and resume after it.
  \<open>k\<close> is the number of characters still covered by the last match. None of the
  source's patterns matches the empty string.
\<close>

fun scan :: "bool \<Rightarrow> regex \<Rightarrow> char option \<Rightarrow> string \<Rightarrow> nat \<Rightarrow> string list" where
  "scan ic r p [] k =
     (if 0 < k then []
      else (case rmatch ic r (start_at p []) of [] \<Rightarrow> [] | st # sts \<Rightarrow> [found st]))"
| "scan ic r p (c # cs) k =
     (if 0 < k then scan ic r (Some c) cs (k - 1)
      else (case rmatch ic r (start_at p (c # cs)) of
              [] \<Rightarrow> scan ic r (Some c) cs 0
            | st # sts \<Rightarrow> found st # scan ic r (Some c) cs (length (taken st) - 1)))"

definition findall :: "regex \<Rightarrow> string \<Rightarrow> string list" where
  "findall r s = scan False r None s 0"

definition findall_ic :: "regex \<Rightarrow> string \<Rightarrow> string list" where
  "findall_ic r s = scan True r None s 0"

section \<open>The patterns of \<open>extract_entities\<close>\<close>

definition upper_az :: citem where "upper_az = Range CHR ''A'' CHR ''Z''"
definition lower_az :: citem where "lower_az = Range CHR ''a'' CHR ''z''"
definition num09 :: citem where "num09 = Range CHR ''0'' CHR ''9''"

text \<open>\<open>\b[A-Za-z0-9._%+-]+@[A-Za-z0-9.-]+\.[A-Z|a-z]{2,}\b\<close>\<close>

definition email_pattern :: regex where
  "email_pattern = seqs
     [WordB,
      Many 1 [upper_az, lower_az, num09, One CHR ''.'', One CHR ''_'', One CHR ''%'',
              One CHR ''+'', One CHR ''-''],
      Lit ''@'',
      Many 1 [upper_az, lower_az, num09, One CHR ''.'', One CHR ''-''],
      Lit ''.'',
      Many 2 [upper_az, One CHR ''|'', lower_az],
      WordB]"

definition upi_providers :: "string list" where
  "upi_providers =
     [''oksbi'', ''okaxis'', ''okhdfcbank'', ''okicici'', ''okbob'', ''oksbi'', ''paytm'',
      ''phonepe'', ''ybl'', ''paypal'', ''okbiz'', ''upi'', ''payzapp'', ''bms'', ''dmrc'',
      ''ola'', ''swiggy'', ''zomato'', ''amazon'', ''google'', ''okhdfcbank'', ''sbi'',
      ''axis'', ''icici'', ''hdfc'', ''pnb'', ''bob'', ''kotak'', ''idfc'', ''yesbank'',
      ''indus'', ''kotak'', ''union'', ''canara'', ''bandhan'', ''federal'',
      ''southindian'', ''karur'', ''cityunion'', ''indianoverseas'', ''saraswat'',
      ''abhyuday'', ''apnas'', ''barodampay'', ''cmsidfc'', ''equitas'', ''esaf'',
      ''finobank'', ''hsbc'', ''jupiter'', ''kbl'', ''kmb'', ''nsdl'', ''pnb'',
      ''purvanchal'', ''rajasthan'', ''tmb'', ''uco'', ''ujjivan'', ''union'', ''utbi'']"

definition upi_local :: regex where
  "upi_local = Rep 2 256 (Cls [lower_az, upper_az, num09, One CHR ''.'', One CHR ''-'',
                               One CHR ''_''])"

text \<open>\<open>[a-zA-Z0-9.\-_]{2,256}@(oksbi|okaxis|...|utbi)\<close>, with its capturing group.\<close>

definition upi_pattern :: regex where
  "upi_pattern = seqs [upi_local, Lit ''@'', Grp (alts (map Lit upi_providers))]"

text \<open>\<open>[a-zA-Z0-9.\-_]{2,256}@[a-zA-Z]{2,64}\<close>\<close>

definition upi_pattern_broad :: regex where
  "upi_pattern_broad = seqs [upi_local, Lit ''@'', Rep 2 64 (Cls [lower_az, upper_az])]"

text \<open>
  \<open>(?:https?://|onion://|www\.)[-a-zA-Z0-9@:%._\+~#=]{1,256}\.[a-zA-Z0-9()]{1,6}\b(?:[-a-zA-Z0-9()@:%_\+.~#?&/=]*)\<close>
\<close>

definition url_pattern :: regex where
  "url_pattern = seqs
     [alts [seqs [Lit ''http'', opt (Lit ''s''), Lit ''://''], Lit ''onion://'', Lit ''www.''],
      Rep 1 256 (Cls [One CHR ''-'', lower_az, upper_az, num09, One CHR ''@'', One CHR '':'',
                      One CHR ''%'', One CHR ''.'', One CHR ''_'', One CHR ''+'', One CHR ''~'',
                      One CHR ''#'', One CHR ''='']),
      Lit ''.'',
      Rep 1 6 (Cls [lower_az, upper_az, num09, One CHR ''('', One CHR '')'']),
      WordB,
      Many 0 [One CHR ''-'', lower_az, upper_az, num09, One CHR ''('', One CHR '')'',
              One CHR ''@'', One CHR '':'', One CHR ''%'', One CHR ''_'', One CHR ''+'',
              One CHR ''.'', One CHR ''~'', One CHR ''#'', One CHR ''?'', One CHR ''&'',
              One CHR ''/'', One CHR ''='']]"

definition dash_or_space :: regex where
  "dash_or_space = Cls [One CHR ''-'', Space]"

definition digits :: "nat \<Rightarrow> nat \<Rightarrow> regex" where
  "digits lo hi = Rep lo hi (Cls [Digit])"

text \<open>\<open>(?:\+91[\-\s]?)?\b[6-9]\d{9}\b\<close>\<close>

definition phone_pattern_indian :: regex where
  "phone_pattern_indian = seqs
     [opt (seqs [Lit ''+91'', opt dash_or_space]), WordB,
      Cls [Range CHR ''6'' CHR ''9''], digits 9 9, WordB]"

text \<open>\<open>\+1[\-\s]?\(?\d{3}\)?[\-\s]?\d{3}[\-\s]?\d{4}\<close>\<close>

definition phone_pattern_us :: regex where
  "phone_pattern_us = seqs
     [Lit ''+1'', opt dash_or_space, opt (Lit ''(''), digits 3 3, opt (Lit '')''),
      opt dash_or_space, digits 3 3, opt dash_or_space, digits 4 4]"

text \<open>\<open>(?:1?[-\s]?)?800[\-\s]?\d{3}[\-\s]?\d{4}\<close>\<close>

definition phone_pattern_tollfree :: regex where
  "phone_pattern_tollfree = seqs
     [opt (seqs [opt (Lit ''1''), opt dash_or_space]), Lit ''800'', opt dash_or_space,
      digits 3 3, opt dash_or_space, digits 4 4]"

text \<open>\<open>\+\d{1,3}[\-\s]?\d{6,12}\<close>\<close>

definition phone_intl :: regex where
  "phone_intl = seqs [Lit ''+'', digits 1 3, opt dash_or_space, digits 6 12]"

text \<open>\<open>\b\d{9,18}\b\<close>\<close>

definition bank_account_pattern :: regex where
  "bank_account_pattern = seqs [WordB, digits 9 18, WordB]"

text \<open>\<open>\b(?:\d{4}[-\s]?){3}\d{4}\b|\b\d{16}\b\<close>\<close>

definition credit_card_pattern :: regex where
  "credit_card_pattern = Alt
     (seqs [WordB, Rep 3 3 (seqs [digits 4 4, opt dash_or_space]), digits 4 4, WordB])
     (seqs [WordB, digits 16 16, WordB])"

definition base58_tail :: "citem list" where
  "base58_tail = [Range CHR ''a'' CHR ''k'', Range CHR ''m'' CHR ''z'', Range CHR ''A'' CHR ''H'',
                  Range CHR ''J'' CHR ''N'', Range CHR ''P'' CHR ''Z'', Range CHR ''1'' CHR ''9'']"

text \<open>\<open>\b[13][a-km-zA-HJ-NP-Z1-9]{25,34}\b\<close>\<close>

definition bitcoin_pattern_legacy :: regex where
  "bitcoin_pattern_legacy = seqs
     [WordB, Cls [One CHR ''1'', One CHR ''3''], Rep 25 34 (Cls base58_tail), WordB]"

text \<open>\<open>\bbc1[a-zA-HJ-NP-Z0-9]{39,59}\b\<close>\<close>

definition bitcoin_pattern_bech32 :: regex where
  "bitcoin_pattern_bech32 = seqs
     [WordB, Lit ''bc1'',
      Rep 39 59 (Cls [lower_az, Range CHR ''A'' CHR ''H'', Range CHR ''J'' CHR ''N'',
                      Range CHR ''P'' CHR ''Z'', num09]),
      WordB]"

text \<open>\<open>@\w{3,32}\b\<close>\<close>

definition telegram_pattern :: regex where
  "telegram_pattern = seqs [Lit ''@'', Rep 3 32 (Cls [Word]), WordB]"

text \<open>\<open>\b(?:DH|AMZ|UPS|FEDEX|1Z)[\s-]*\d{6,20}\b\<close>\<close>

definition tracking_pattern :: regex where
  "tracking_pattern = seqs
     [WordB, alts (map Lit [''DH'', ''AMZ'', ''UPS'', ''FEDEX'', ''1Z'']),
      Many 0 [Space, One CHR ''-''], digits 6 20, WordB]"

text \<open>
  \<open>\b(?:TXN|ORD|ID|REF|CASE|EMP|CUS|EXT|SBI|AMZ|WIN|CB|LOAN|KYC|FRD|BILL)[\-\s]?[A-Z0-9]{4,20}\b\<close>
\<close>

definition id_pattern :: regex where
  "id_pattern = seqs
     [WordB,
      alts (map Lit [''TXN'', ''ORD'', ''ID'', ''REF'', ''CASE'', ''EMP'', ''CUS'', ''EXT'',
                     ''SBI'', ''AMZ'', ''WIN'', ''CB'', ''LOAN'', ''KYC'', ''FRD'', ''BILL'']),
      opt dash_or_space, Rep 4 20 (Cls [upper_az, num09]), WordB]"

text \<open>\<open>\b\d{4}\s?\d{4}\s?\d{4}\b\<close>\<close>

definition aadhar_pattern :: regex where
  "aadhar_pattern = seqs
     [WordB, digits 4 4, opt (Cls [Space]), digits 4 4, opt (Cls [Space]), digits 4 4, WordB]"

text \<open>\<open>\b[A-Z]{5}[0-9]{4}[A-Z]{1}\b\<close>\<close>

definition pan_pattern :: regex where
  "pan_pattern = seqs
     [WordB, Rep 5 5 (Cls [upper_az]), Rep 4 4 (Cls [num09]), Rep 1 1 (Cls [upper_az]), WordB]"

text \<open>\<open>\b[A-Z]{4}0[A-Z0-9]{6}\b\<close>\<close>

definition ifsc_pattern :: regex where
  "ifsc_pattern = seqs
     [WordB, Rep 4 4 (Cls [upper_az]), Lit ''0'', Rep 6 6 (Cls [upper_az, num09]), WordB]"

text \<open>\<open>\b(?:ORDER|ORDERID|ORDER\s*NO|ORDER#|OID)[\s#-]*[A-Z0-9]{6,20}\b\<close>\<close>

definition order_pattern :: regex where
  "order_pattern = seqs
     [WordB,
      alts [Lit ''ORDER'', Lit ''ORDERID'', seqs [Lit ''ORDER'', Many 0 [Space], Lit ''NO''],
            Lit ''ORDER#'', Lit ''OID''],
      Many 0 [Space, One CHR ''#'', One CHR ''-''], Rep 6 20 (Cls [upper_az, num09]), WordB]"

section \<open>\<open>extract_entities\<close>\<close>

text \<open>
  The credit-card filter. \<open>digits[0]\<close> is a checked index: it raises on an empty
  string, and the guard \<open>len(digits) == 16\<close> stands before it.
\<close>

definition card_check :: "string \<Rightarrow> error + bool" where
  "card_check cc =
     (let digits = digits_of cc in
      if length digits = 16 then
        (case str_index digits 0 of
           Inl e \<Rightarrow> Inl e
         | Inr first_digit \<Rightarrow>
             (let first_two = take 2 digits;
                  is_valid_cc = (first_digit = CHR ''4'' \<or> first_digit = CHR ''5'' \<or>
                                 first_two \<in> set [''34'', ''37'', ''65''] \<or>
                                 first_two \<in> set [''60'', ''64''] \<or>
                                 take 4 digits = ''6011'')
              in Inr (is_valid_cc \<and> digits \<noteq> ''0000000000000000'')))
      else Inr False)"

fun valid_cards_loop :: "string list \<Rightarrow> string list \<Rightarrow> error + string list" where
  "valid_cards_loop [] valid_credit_cards = Inr valid_credit_cards"
| "valid_cards_loop (cc # ccs) valid_credit_cards =
     (case card_check cc of
        Inl e \<Rightarrow> Inl e
      | Inr ok \<Rightarrow> valid_cards_loop ccs
                   (if ok then valid_credit_cards @ [cc] else valid_credit_cards))"

text \<open>
  The phone loop: normalise, prefix the domestic country code, keep the first surface
  form of each normalised number. \<open>norm[0]\<close> is a checked index behind the guard
  \<open>len(norm) == 10\<close>.
\<close>

definition normalize_phone :: "string \<Rightarrow> error + string" where
  "normalize_phone p =
     (let norm = digits_of p in
      if length norm = 10 then
        (case str_index norm 0 of
           Inl e \<Rightarrow> Inl e
         | Inr d \<Rightarrow> Inr (if d \<in> set ''6789'' then ''91'' @ norm else norm))
      else Inr norm)"

fun phones_loop ::
  "string list \<Rightarrow> string list \<Rightarrow> string set \<Rightarrow> error + (string list \<times> string set)" where
  "phones_loop [] clean_phones seen_phones = Inr (clean_phones, seen_phones)"
| "phones_loop (p # ps) clean_phones seen_phones =
     (case normalize_phone p of
        Inl e \<Rightarrow> Inl e
      | Inr norm \<Rightarrow>
          (if norm \<notin> seen_phones \<and> 10 \<le> length norm
           then phones_loop ps (clean_phones @ [strip p]) (insert norm seen_phones)
           else phones_loop ps clean_phones seen_phones))"

definition all_phones :: "string \<Rightarrow> string list" where
  "all_phones text =
     findall phone_pattern_indian text @ findall phone_pattern_us text @
     findall phone_pattern_tollfree text @ findall phone_intl text"

text \<open>The bank-account filter: no Aadhaar-length run, no run that is, holds or lies in a phone.\<close>

definition is_phone :: "string list \<Rightarrow> string \<Rightarrow> bool" where
  "is_phone clean_phones b =
     list_ex (\<lambda>phone. contains b (digits_of phone) \<or> contains (digits_of phone) b) clean_phones"

definition clean_banks :: "string list \<Rightarrow> string set \<Rightarrow> string list \<Rightarrow> string list" where
  "clean_banks clean_phones seen_phones banks_raw =
     filter (\<lambda>b. length b \<noteq> 12 \<and> \<not> is_phone clean_phones b \<and> b \<notin> seen_phones) banks_raw"

definition suspicious_keywords_list :: "string list" where
  "suspicious_keywords_list =
     [''urgent'', ''verify'', ''block'', ''suspend'', ''kyc'', ''pan'', ''aadhar'',
      ''win'', ''lottery'', ''expired'', ''otp'', ''pin'', ''cvv'', ''expiry'', ''code'',
      ''cbi'', ''police'', ''customs'', ''drugs'', ''seized'', ''arrest'', ''warrant'',
      ''electricity'', ''bill'', ''disconnect'', ''prepaid'', ''task'', ''cashback'',
      ''account'', ''compromised'', ''fraud'', ''unauthorized'', ''transaction'',
      ''claim'', ''prize'', ''winner'', ''selected'', ''lucky'', ''offer'', ''limited'']"

definition upis_of :: "string \<Rightarrow> string list" where
  "upis_of text =
     (let upis = findall_ic upi_pattern text
      in if upis = [] then findall upi_pattern_broad text else upis)"

text \<open>\<open>sorted(list(set(xs)))\<close>: the elements of \<open>xs\<close>, each once, in ascending order.\<close>

definition sorted_set :: "string list \<Rightarrow> string list" where
  "sorted_set xs = sorted_list_of_set (set xs)"

type_synonym entities = "string \<rightharpoonup> string list"

text \<open>
  The result dictionary. \<open>list_of_set\<close> is the order in which the interpreter iterates
  a set when \<open>list(set(...))\<close> is built, which the language leaves open; the thirteen
  categories that are sorted afterwards do not depend on it. The set
  \<open>credit_card_digits\<close> of the source is built and never read, so it is left out.
\<close>

definition entity_dict ::
  "(string set \<Rightarrow> string list) \<Rightarrow> string \<Rightarrow> string list \<Rightarrow> string list \<Rightarrow> string set \<Rightarrow> entities" where
  "entity_dict list_of_set text valid_credit_cards clean_phones seen_phones =
     map_of
       [(''phoneNumbers'', sorted_set clean_phones),
        (''bankAccounts'',
           sorted_set (clean_banks clean_phones seen_phones (findall bank_account_pattern text))),
        (''upiIds'', sorted_set (upis_of text)),
        (''phishingLinks'', sorted_set (findall_ic url_pattern text)),
        (''emailAddresses'', sorted_set (findall email_pattern text)),
        (''creditCards'', sorted_set valid_credit_cards),
        (''bitcoinAddresses'',
           sorted_set (findall bitcoin_pattern_legacy text @ findall bitcoin_pattern_bech32 text)),
        (''telegramIds'', sorted_set (findall telegram_pattern text)),
        (''trackingNumbers'', sorted_set (findall_ic tracking_pattern text)),
        (''ids'', sorted_set (findall_ic id_pattern text @ findall_ic order_pattern text)),
        (''aadharNumbers'', sorted_set (findall aadhar_pattern text)),
        (''panNumbers'', sorted_set (findall pan_pattern text)),
        (''ifscCodes'', sorted_set (findall ifsc_pattern text)),
        (''suspiciousKeywords'',
           list_of_set (set (filter (\<lambda>word. contains word (lower text))
                                    suspicious_keywords_list)))]"

definition extract_entities ::
  "(string set \<Rightarrow> string list) \<Rightarrow> string option \<Rightarrow> error + entities" where
  "extract_entities list_of_set text =
     (case text of
        None \<Rightarrow> Inr Map.empty
      | Some t \<Rightarrow>
          if t = [] then Inr Map.empty
          else
            (case valid_cards_loop (findall credit_card_pattern t) [] of
               Inl e \<Rightarrow> Inl e
             | Inr valid_credit_cards \<Rightarrow>
                 (case phones_loop (all_phones t) [] {} of
                    Inl e \<Rightarrow> Inl e
                  | Inr (clean_phones, seen_phones) \<Rightarrow>
                      Inr (entity_dict list_of_set t valid_credit_cards clean_phones
                             seen_phones))))"

text \<open>\<open>d.get(k, [])\<close>, and the truth value of \<open>d.get(k)\<close>.\<close>

definition get_list :: "entities \<Rightarrow> string \<Rightarrow> string list" where
  "get_list d k = (case d k of None \<Rightarrow> [] | Some v \<Rightarrow> v)"

definition category_names :: "string list" where
  "category_names =
     [''phoneNumbers'', ''bankAccounts'', ''upiIds'', ''phishingLinks'', ''emailAddresses'',
      ''creditCards'', ''bitcoinAddresses'', ''telegramIds'', ''trackingNumbers'', ''ids'',
      ''aadharNumbers'', ''panNumbers'', ''ifscCodes'', ''suspiciousKeywords'']"

text \<open>An iteration order of sets is admissible when it lists every element once.\<close>

definition lists_each_once :: "(string set \<Rightarrow> string list) \<Rightarrow> bool" where
  "lists_each_once list_of_set =
     (\<forall>A. finite A \<longrightarrow> set (list_of_set A) = A \<and> distinct (list_of_set A))"

section \<open>Requests and collaborators\<close>

record message =
  sender :: string
  msg_text :: "string option"
  audioBase64 :: "string option"
  timestamp :: int

record request =
  sessionId :: string
  message :: message
  conversationHistory :: "message list"

text \<open>
  The collaborators of the core. \<open>classifier\<close> is present when both the trained
  classifier and its vectorizer are loaded; it yields \<open>str(prediction)\<close> or the
  exception raised on the way. \<open>router\<close> is present when the language model is
  configured; it yields \<open>response.text\<close> of the routing call or the exception
  raised on the way. \<open>generate_agent_reply\<close> catches every exception of the
  generation call itself and always returns a string. \<open>clock\<close> is \<open>time.time()\<close>.
\<close>

record env =
  classifier :: "(string option \<Rightarrow> error + string) option"
  router :: "(string option \<Rightarrow> error + string) option"
  generate_agent_reply ::
    "message list \<Rightarrow> string option \<Rightarrow> entities \<Rightarrow> string \<Rightarrow> string \<Rightarrow> string"
  set_order :: "string set \<Rightarrow> string list"
  clock :: nat

section \<open>\<open>predict_scam\<close>\<close>

definition scam_labels :: "string list" where
  "scam_labels = [''scam'', ''spam'', ''fraud'', ''1'']"

definition scam_keywords :: "string list" where
  "scam_keywords =
     [''bank'', ''verify'', ''blocked'', ''lottery'', ''winner'', ''prize'', ''urgent'',
      ''credit card'', ''kyc'', ''update'', ''otp'', ''pin'', ''cvv'', ''expiry'',
      ''cbi'', ''police'', ''customs'', ''narcotics'', ''seized'', ''arrest'', ''warrant'',
      ''electricity'', ''disconnect'', ''meter'',
      ''job'', ''task'', ''prepaid'', ''youtube'', ''review'',
      ''fedex'', ''courier'', ''parcel'']"

text \<open>
  Tier 1 returns early on a positive label; its exceptions are caught. Tier 2 calls
  \<open>text.lower()\<close> with no guard, which raises on an absent text.
\<close>

definition classifier_fires :: "env \<Rightarrow> string option \<Rightarrow> bool" where
  "classifier_fires e text =
     (case classifier e of
        None \<Rightarrow> False
      | Some predict \<Rightarrow>
          (case predict text of
             Inl err \<Rightarrow> False
           | Inr label \<Rightarrow> lower label \<in> set scam_labels))"

definition predict_scam :: "env \<Rightarrow> string option \<Rightarrow> error + bool" where
  "predict_scam e text =
     (if classifier_fires e text then Inr True
      else (case text of
              None \<Rightarrow> Inl AttributeError
            | Some t \<Rightarrow> Inr (any_in scam_keywords (lower t))))"

section \<open>Persona and language routing\<close>

definition hinglish_markers :: "string list" where
  "hinglish_markers =
     [''bhai'', ''bha'', ''haan'', ''haanji'', ''kya'', ''kyu'', ''nahi'', ''nahin'',
      ''sir ji'', ''beta'', ''paise'', ''paisa'', ''upi'', ''karo'', ''kar do'', ''jaldi'']"

definition authority_markers :: "string list" where
  "authority_markers =
     [''cbi'', ''police'', ''cyber'', ''arrest'', ''court'', ''customs'', ''narcotics'',
      ''parcel'', ''legal'', ''section'']"

definition money_markers :: "string list" where
  "money_markers =
     [''lottery'', ''loan'', ''job'', ''offer'', ''task'', ''telegram'', ''earn'', ''salary'',
      ''reward'']"

definition bank_markers :: "string list" where
  "bank_markers =
     [''kyc'', ''bank'', ''account'', ''otp'', ''blocked'', ''freeze'', ''pan'', ''aadhar'',
      ''ifsc'', ''electricity'', ''bill'', ''anydesk'', ''teamviewer'', ''virus'']"

definition heuristic_persona_and_language :: "string option \<Rightarrow> string \<times> string" where
  "heuristic_persona_and_language text =
     (let lower = lower (or_empty text);
          language = (if any_in hinglish_markers lower then ''hinglish'' else ''english'')
      in if any_in authority_markers lower then (''skeptic'', language)
         else if any_in money_markers lower then (''student'', language)
         else if any_in bank_markers lower then (''grandma'', language)
         else (''parent'', language))"

text \<open>The keys of \<open>PERSONAS\<close>, in the order the dictionary was written.\<close>

definition persona_keys :: "string list" where
  "persona_keys = [''grandma'', ''student'', ''skeptic'', ''parent'']"

text \<open>
  The parse of the routing response: the first persona key contained in the first
  part, else the preset \<open>grandma\<close>; \<open>hinglish\<close> when the second part exists and
  holds a language marker, else the preset \<open>english\<close>.
\<close>

definition parse_route :: "string \<Rightarrow> string \<times> string" where
  "parse_route response_text =
     (let result = lower (strip response_text);
          parts = split_on CHR ''|'' result;
          selected_persona =
            (if 1 \<le> length parts
             then (case find (\<lambda>p. contains p (parts ! 0)) persona_keys of
                     None \<Rightarrow> ''grandma''
                   | Some p \<Rightarrow> p)
             else ''grandma'');
          selected_language =
            (if 2 \<le> length parts \<and>
                (contains ''hinglish'' (parts ! 1) \<or> contains ''hindi'' (parts ! 1))
             then ''hinglish'' else ''english'')
      in (selected_persona, selected_language))"

definition select_persona_and_language :: "env \<Rightarrow> string option \<Rightarrow> string \<times> string" where
  "select_persona_and_language e text =
     (case router e of
        None \<Rightarrow> heuristic_persona_and_language text
      | Some ask \<Rightarrow>
          (case ask text of
             Inl err \<Rightarrow> heuristic_persona_and_language text
           | Inr response_text \<Rightarrow> parse_route response_text))"

section \<open>Scam-category inference\<close>

text \<open>The \<open>if\<close>/\<open>elif\<close> chain of \<open>check_and_send_callback\<close> on the lower-cased message.\<close>

definition infer_scam_type :: "string \<Rightarrow> string" where
  "infer_scam_type full_text =
     (if any_in [''bitcoin'', ''crypto'', ''blackmail'', ''video'', ''extortion'',
                 ''private videos''] full_text then ''Sextortion''
      else if any_in [''police'', ''cbi'', ''arrest'', ''warrant'', ''court'', ''narcotics'',
                      ''trafficking'', ''digital arrest''] full_text then ''Digital Arrest''
      else if any_in [''parcel'', ''courier'', ''dhl'', ''customs'', ''duty'',
                      ''held at customs''] full_text then ''Courier Scam''
      else if any_in [''electricity'', ''power'', ''bill'', ''disconnect'', ''unpaid bill'',
                      ''power cut''] full_text then ''Utility Scam''
      else if any_in [''kyc'', ''aadhaar'', ''pan card'', ''update kyc'',
                      ''kyc update''] full_text then ''KYC Scam''
      else if any_in [''job'', ''hiring'', ''work from home'', ''salary'', ''earn money'',
                      ''employment'', ''urgent hiring''] full_text then ''Job Scam''
      else if any_in [''loan'', ''credit'', ''loan approved'', ''pre-approved'',
                      ''instant loan'', ''emi''] full_text then ''Loan Scam''
      else if any_in [''upi'', ''cashback'', ''paytm'', ''phonepe'', ''google pay'',
                      ''upi id''] full_text then ''UPI Fraud''
      else if any_in [''lottery'', ''winner'', ''prize'', ''won'', ''lucky draw'',
                      ''congratulations you won''] full_text then ''Lottery Scam''
      else if any_in [''bank'', ''sbi'', ''account compromised'', ''account blocked'',
                      ''share otp'', ''unauthorized transaction''] full_text then ''Bank Fraud''
      else if any_in [''amazon'', ''flipkart'', ''order confirmed'', ''delivery'',
                      ''click here'', ''claim prize'', ''iphone won''] full_text then ''Phishing''
      else ''Unknown'')"

section \<open>Session state\<close>

record session =
  persona :: string
  language :: string
  start_time :: nat
  questions_asked :: nat
  red_flags :: "string list"
  elicitation_attempts :: nat
  turn_count :: nat

text \<open>The global \<open>session_state\<close> dictionary, keyed by conversation id.\<close>

type_synonym store = "string \<rightharpoonup> session"

definition new_session :: "env \<Rightarrow> string option \<Rightarrow> session" where
  "new_session e text =
     (case select_persona_and_language e text of
        (p_key, lang) \<Rightarrow>
          \<lparr>persona = p_key, language = lang, start_time = clock e, questions_asked = 0,
           red_flags = [], elicitation_attempts = 0, turn_count = 0\<rparr>)"

text \<open>
  \<open>questions_count\<close>: the history messages sent by \<open>user\<close> or \<open>agent\<close> whose text holds
  a question mark.
\<close>

definition questions_count :: "message list \<Rightarrow> nat" where
  "questions_count history =
     length (filter (\<lambda>msg. contains ''?'' (or_empty msg))
               (map msg_text (filter (\<lambda>m. sender m = ''user'' \<or> sender m = ''agent'') history)))"

definition add_flag :: "string \<Rightarrow> session \<Rightarrow> session" where
  "add_flag flag s =
     (if flag \<in> set (red_flags s) then s else s\<lparr>red_flags := red_flags s @ [flag]\<rparr>)"

definition elicitation_keywords :: "string list" where
  "elicitation_keywords =
     [''phone'', ''number'', ''contact'', ''email'', ''account'', ''upi'', ''id'', ''send me'']"

text \<open>The in-place update of the session on a scam-like turn, statement by statement.\<close>

definition update_session :: "message list \<Rightarrow> string option \<Rightarrow> session \<Rightarrow> session" where
  "update_session history text current_state =
     (let s1 = current_state\<lparr>turn_count := length history + 1\<rparr>;
          s2 = s1\<lparr>questions_asked := max (questions_count history) (questions_asked s1)\<rparr>;
          msg_lower = lower (or_empty text);
          s3 = (if contains ''urgent'' msg_lower \<or> contains ''immediately'' msg_lower
                then add_flag ''Urgency'' s2 else s2);
          s4 = (if contains ''otp'' msg_lower \<or> contains ''pin'' msg_lower
                then add_flag ''OTP Request'' s3 else s3);
          s5 = (if contains ''http'' msg_lower \<or> contains ''link'' msg_lower \<or>
                   contains ''.com'' msg_lower
                then add_flag ''Suspicious Link'' s4 else s4);
          s6 = (if turn_count s5 \<le> 2 then add_flag ''Unsolicited Contact'' s5 else s5)
      in if any_in elicitation_keywords msg_lower
         then s6\<lparr>elicitation_attempts := elicitation_attempts s6 + 1\<rparr> else s6)"

section \<open>\<open>analyze\<close> and \<open>check_and_send_callback\<close>\<close>

record analysis =
  scam_detected :: bool
  entities_found :: entities

text \<open>The arguments of a scheduled background call of \<open>check_and_send_callback\<close>.\<close>

record task =
  task_session_id :: string
  task_history :: "message list"
  task_current_msg :: message
  task_analysis :: analysis

record response =
  status :: string
  reply :: string

text \<open>The transcription stub always returns the empty string.\<close>

definition transcribe_audio :: "string \<Rightarrow> string" where
  "transcribe_audio base64_audio = []"

definition with_transcript :: "message \<Rightarrow> message" where
  "with_transcript m =
     (case audioBase64 m of
        None \<Rightarrow> m
      | Some audio \<Rightarrow>
          if audio \<noteq> [] \<and> \<not> truthy (msg_text m)
          then (let transcribed_text = transcribe_audio audio
                in if transcribed_text \<noteq> [] then m\<lparr>msg_text := Some transcribed_text\<rparr> else m)
          else m)"

text \<open>\<open>(msg.text or "") + " " + " ".join([m.text or "" for m in history])\<close>\<close>

definition joined_text :: "message \<Rightarrow> message list \<Rightarrow> string" where
  "joined_text msg history =
     or_empty (msg_text msg) @ '' '' @ join '' '' (map (\<lambda>m. or_empty (msg_text m)) history)"

definition disengage_reply :: string where
  "disengage_reply = ''I don't think I am interested. Thank you.''"

text \<open>
  \<open>analyze\<close> returns the session store after the call, and either the error behind the
  500 response or the response with the background task it scheduled.
\<close>

definition analyze :: "env \<Rightarrow> store \<Rightarrow> request \<Rightarrow> store \<times> (error + response \<times> task option)" where
  "analyze e session_state req =
     (let msg = with_transcript (message req);
          history = conversationHistory req
      in case predict_scam e (msg_text msg) of
           Inl err \<Rightarrow> (session_state, Inl (HTTP500 err))
         | Inr current_msg_is_scam \<Rightarrow>
             (let has_history = (0 < length history);
                  is_scam = (current_msg_is_scam \<or> has_history)
              in case extract_entities (set_order e) (Some (joined_text msg history)) of
                   Inl err \<Rightarrow> (session_state, Inl (HTTP500 err))
                 | Inr all_entities \<Rightarrow>
                     if is_scam then
                       (let current_state =
                              (case session_state (sessionId req) of
                                 None \<Rightarrow> new_session e (msg_text msg)
                               | Some s \<Rightarrow> s);
                            updated = update_session history (msg_text msg) current_state;
                            agent_reply = generate_agent_reply e history (msg_text msg)
                                            all_entities (persona updated) (language updated)
                        in (session_state(sessionId req \<mapsto> updated),
                            Inr (\<lparr>status = ''success'', reply = agent_reply\<rparr>,
                                 Some \<lparr>task_session_id = sessionId req, task_history = history,
                                       task_current_msg = msg,
                                       task_analysis = \<lparr>scam_detected = True,
                                                        entities_found = all_entities\<rparr>\<rparr>)))
                     else (session_state,
                           Inr (\<lparr>status = ''success'', reply = disengage_reply\<rparr>, None))))"

text \<open>
  The outbound report. Its engagement duration, confidence level and free-text notes
  are computed from the wall clock and in floating point, and are left out.
\<close>

record payload =
  report_session :: string
  scamDetected :: bool
  totalMessagesExchanged :: nat
  extractedIntelligence :: entities
  scamType :: string

definition has_critical_info :: "entities \<Rightarrow> bool" where
  "has_critical_info entities =
     (get_list entities ''bankAccounts'' \<noteq> [] \<or> get_list entities ''upiIds'' \<noteq> [] \<or>
      get_list entities ''phishingLinks'' \<noteq> [])"

definition reported_categories :: "string list" where
  "reported_categories =
     [''phoneNumbers'', ''bankAccounts'', ''upiIds'', ''phishingLinks'', ''emailAddresses'',
      ''creditCards'', ''bitcoinAddresses'', ''telegramIds'', ''trackingNumbers'', ''ids'']"

text \<open>\<open>Some\<close> payload: the report is posted to the callback endpoint.\<close>

definition check_and_send_callback ::
  "env \<Rightarrow> string \<Rightarrow> message list \<Rightarrow> message \<Rightarrow> analysis \<Rightarrow> error + payload option" where
  "check_and_send_callback e session_id history current_msg analysis_result =
     (let total_messages = length history + 1;
          is_scam = scam_detected analysis_result;
          entities = entities_found analysis_result;
          full_text = lower (or_empty (msg_text current_msg));
          scam_type = infer_scam_type full_text
      in if is_scam \<and> (4 \<le> total_messages \<or> has_critical_info entities) then
           (case extract_entities (set_order e) (Some (joined_text current_msg history)) of
              Inl err \<Rightarrow> Inl err
            | Inr aggregated_entities \<Rightarrow>
                Inr (Some \<lparr>report_session = session_id, scamDetected = True,
                           totalMessagesExchanged = total_messages,
                           extractedIntelligence =
                             map_of (map (\<lambda>k. (k, get_list aggregated_entities k))
                                      reported_categories),
                           scamType = scam_type\<rparr>))
         else Inr None)"

text \<open>The report that a request leads to: the scheduled task, run after the response.\<close>

definition report_of :: "env \<Rightarrow> store \<Rightarrow> request \<Rightarrow> payload option" where
  "report_of e session_state req =
     (case snd (analyze e session_state req) of
        Inl err \<Rightarrow> None
      | Inr (resp, None) \<Rightarrow> None
      | Inr (resp, Some t) \<Rightarrow>
          (case check_and_send_callback e (task_session_id t) (task_history t)
                  (task_current_msg t) (task_analysis t) of
             Inl err \<Rightarrow> None
           | Inr r \<Rightarrow> r))"

text \<open>
  The value of the local \<open>is_scam\<close> of \<open>analyze\<close>: an error when the classifier raises
  before it is assigned.
\<close>

definition is_scam_of :: "env \<Rightarrow> request \<Rightarrow> error + bool" where
  "is_scam_of e req =
     (case predict_scam e (msg_text (with_transcript (message req))) of
        Inl err \<Rightarrow> Inl err
      | Inr current_msg_is_scam \<Rightarrow>
          Inr (current_msg_is_scam \<or> 0 < length (conversationHistory req)))"

section \<open>The extractor without its error plumbing\<close>

definition card_ok :: "string \<Rightarrow> bool" where
  "card_ok cc =
     (let digits = digits_of cc in
      length digits = 16 \<and>
      (hd digits = CHR ''4'' \<or> hd digits = CHR ''5'' \<or>
       take 2 digits \<in> set [''34'', ''37'', ''65'', ''60'', ''64''] \<or>
       take 4 digits = ''6011'') \<and>
      digits \<noteq> ''0000000000000000'')"

definition norm_phone :: "string \<Rightarrow> string" where
  "norm_phone p =
     (let norm = digits_of p in
      if length norm = 10 \<and> hd norm \<in> set ''6789'' then ''91'' @ norm else norm)"

fun phones_pure :: "string list \<Rightarrow> string list \<Rightarrow> string set \<Rightarrow> string list \<times> string set" where
  "phones_pure [] clean seen = (clean, seen)"
| "phones_pure (p # ps) clean seen =
     (if norm_phone p \<notin> seen \<and> 10 \<le> length (norm_phone p)
      then phones_pure ps (clean @ [strip p]) (insert (norm_phone p) seen)
      else phones_pure ps clean seen)"

text \<open>The result dictionary of a non-empty text, over the two loops without their error cases.\<close>

definition entity_map :: "(string set \<Rightarrow> string list) \<Rightarrow> string \<Rightarrow> entities" where
  "entity_map list_of_set t =
     entity_dict list_of_set t (filter card_ok (findall credit_card_pattern t))
       (fst (phones_pure (all_phones t) [] {})) (snd (phones_pure (all_phones t) [] {}))"

text \<open>The extraction over the current message and the whole history, as \<open>analyze\<close> runs it.\<close>

definition aggregated :: "env \<Rightarrow> request \<Rightarrow> entities" where
  "aggregated e req =
     entity_map (set_order e)
       (joined_text (with_transcript (message req)) (conversationHistory req))"

section \<open>Ordered decision lists, as the specification words them\<close>

text \<open>
  A prioritised rule list evaluated top to bottom: the first rule one of whose
  keywords occurs in the text gives the result, and the fallback is the result when
  no rule matches.
\<close>

definition first_match :: "(string list \<times> string) list \<Rightarrow> string \<Rightarrow> string \<Rightarrow> string" where
  "first_match rules fallback s =
     (case find (\<lambda>rule. any_in (fst rule) s) rules of
        None \<Rightarrow> fallback
      | Some rule \<Rightarrow> snd rule)"

definition persona_rules :: "(string list \<times> string) list" where
  "persona_rules =
     [(authority_markers, ''skeptic''), (money_markers, ''student''), (bank_markers, ''grandma'')]"

definition scam_cascade :: "(string list \<times> string) list" where
  "scam_cascade =
     [([''bitcoin'', ''crypto'', ''blackmail'', ''video'', ''extortion'', ''private videos''],
       ''Sextortion''),
      ([''police'', ''cbi'', ''arrest'', ''warrant'', ''court'', ''narcotics'', ''trafficking'',
        ''digital arrest''], ''Digital Arrest''),
      ([''parcel'', ''courier'', ''dhl'', ''customs'', ''duty'', ''held at customs''],
       ''Courier Scam''),
      ([''electricity'', ''power'', ''bill'', ''disconnect'', ''unpaid bill'', ''power cut''],
       ''Utility Scam''),
      ([''kyc'', ''aadhaar'', ''pan card'', ''update kyc'', ''kyc update''], ''KYC Scam''),
      ([''job'', ''hiring'', ''work from home'', ''salary'', ''earn money'', ''employment'',
        ''urgent hiring''], ''Job Scam''),
      ([''loan'', ''credit'', ''loan approved'', ''pre-approved'', ''instant loan'', ''emi''],
       ''Loan Scam''),
      ([''upi'', ''cashback'', ''paytm'', ''phonepe'', ''google pay'', ''upi id''],
       ''UPI Fraud''),
      ([''lottery'', ''winner'', ''prize'', ''won'', ''lucky draw'',
        ''congratulations you won''], ''Lottery Scam''),
      ([''bank'', ''sbi'', ''account compromised'', ''account blocked'', ''share otp'',
        ''unauthorized transaction''], ''Bank Fraud''),
      ([''amazon'', ''flipkart'', ''order confirmed'', ''delivery'', ''click here'',
        ''claim prize'', ''iphone won''], ''Phishing'')]"

section \<open>Auxiliary notions of the statements\<close>

text \<open>The prefix check in the specification's words, on the digits of a candidate.\<close>

definition prefix_check :: "string \<Rightarrow> bool" where
  "prefix_check ds =
     (starts_with ''4'' ds \<or> starts_with ''5'' ds \<or>
      list_ex (\<lambda>p. starts_with p ds) [''34'', ''37'', ''65'', ''60'', ''64''] \<or>
      starts_with ''6011'' ds)"


text \<open>The parts of the routing response: \<open>response.text.strip().lower().split('|')\<close>.\<close>

definition route_parts :: "string \<Rightarrow> string list" where
  "route_parts response_text = split_on CHR ''|'' (lower (strip response_text))"

text \<open>A sequence of calls of \<open>analyze\<close> on the one session store, first call first.\<close>

definition analyze_seq :: "env \<Rightarrow> store \<Rightarrow> request list \<Rightarrow> store" where
  "analyze_seq e session_state reqs = foldl (\<lambda>st req. fst (analyze e st req)) session_state reqs"

text \<open>The questions-asked count of a conversation id before a call: zero when it has no session.\<close>

definition questions_before :: "store \<Rightarrow> string \<Rightarrow> nat" where
  "questions_before session_state sid =
     (case session_state sid of None \<Rightarrow> 0 | Some s \<Rightarrow> questions_asked s)"

text \<open>The set that \<open>found_keywords\<close> is listed from: the keywords of the lexicon found in a text.\<close>

definition found_keywords :: "string \<Rightarrow> string set" where
  "found_keywords t = set (filter (\<lambda>word. contains word (lower t)) suspicious_keywords_list)"

section \<open>Requests and environments of the examples\<close>

text \<open>A request that opens a conversation, and a message of the counterpart with a text.\<close>

definition single_turn :: "string \<Rightarrow> string \<Rightarrow> request" where
  "single_turn sid t =
     \<lparr>sessionId = sid,
      message = \<lparr>sender = ''scammer'', msg_text = Some t, audioBase64 = None, timestamp = 0\<rparr>,
      conversationHistory = []\<rparr>"

definition plain_message :: "string \<Rightarrow> message" where
  "plain_message t = \<lparr>sender = ''scammer'', msg_text = Some t, audioBase64 = None, timestamp = 0\<rparr>"


text \<open>
  A collaborator-free environment, a fourth-turn request whose history holds one question of
  the agent, and a session that has asked five questions.
\<close>

definition offline_env :: env where
  "offline_env =
     \<lparr>classifier = None, router = None, generate_agent_reply = (\<lambda>h t d p l. ''ok''),
      set_order = sorted_list_of_set, clock = 0\<rparr>"

definition fourth_turn :: request where
  "fourth_turn =
     \<lparr>sessionId = ''s1'', message = plain_message ''urgent'',
      conversationHistory =
        [plain_message ''hi'',
         \<lparr>sender = ''user'', msg_text = Some ''who is this?'', audioBase64 = None, timestamp = 0\<rparr>,
         plain_message ''pay now'']\<rparr>"

definition asked_five :: session where
  "asked_five =
     \<lparr>persona = ''grandma'', language = ''english'', start_time = 0, questions_asked = 5,
      red_flags = [], elicitation_attempts = 0, turn_count = 9\<rparr>"

text \<open>A follow-up request whose message carries no text: \<open>"text": null\<close> in the body.\<close>

definition null_text_request :: request where
  "null_text_request =
     \<lparr>sessionId = ''s1'',
      message = \<lparr>sender = ''scammer'', msg_text = None, audioBase64 = None, timestamp = 0\<rparr>,
      conversationHistory = [plain_message ''your account is blocked'']\<rparr>"

text \<open>An admissible iteration order that is not the ascending one.\<close>

definition descending :: "string set \<Rightarrow> string list" where
  "descending A = rev (sorted_list_of_set A)"

section \<open>The loops of the extractor never raise\<close>

lemma str_index_0: "s \<noteq> [] \<Longrightarrow> str_index s 0 = Inr (hd s)"
  by (cases s) (simp_all add: str_index_def)

lemma card_check_ok: "card_check cc = Inr (card_ok cc)"
proof (cases "length (digits_of cc) = 16")
  case True
  then have "digits_of cc \<noteq> []" by auto
  then show ?thesis
    using True by (auto simp: card_check_def card_ok_def str_index_0 Let_def)
next
  case False
  then show ?thesis by (simp add: card_check_def card_ok_def Let_def)
qed

lemma valid_cards_loop_ok: "valid_cards_loop ccs acc = Inr (acc @ filter card_ok ccs)"
  by (induction ccs arbitrary: acc) (simp_all add: card_check_ok)

lemma normalize_phone_ok: "normalize_phone p = Inr (norm_phone p)"
proof (cases "length (digits_of p) = 10")
  case True
  then have "digits_of p \<noteq> []" by auto
  then show ?thesis
    using True by (simp add: normalize_phone_def norm_phone_def str_index_0 Let_def)
next
  case False
  then show ?thesis by (simp add: normalize_phone_def norm_phone_def Let_def)
qed

lemma phones_loop_ok: "phones_loop ps clean seen = Inr (phones_pure ps clean seen)"
  by (induction ps arbitrary: clean seen) (simp_all add: normalize_phone_ok)

lemma extract_entities_text:
  "t \<noteq> [] \<Longrightarrow> extract_entities los (Some t) = Inr (entity_map los t)"
  by (simp add: extract_entities_def valid_cards_loop_ok phones_loop_ok entity_map_def
        split: prod.splits)

lemma extract_entities_empty:
  "extract_entities los None = Inr Map.empty" "extract_entities los (Some []) = Inr Map.empty"
  by (simp_all add: extract_entities_def)

lemma any_in_member: "k \<in> set ks \<Longrightarrow> contains k s \<Longrightarrow> any_in ks s"
  by (auto simp: any_in_def list_ex_iff)

text \<open>The transcription stub never changes a message.\<close>

lemma with_transcript_same: "with_transcript m = m"
  by (simp add: with_transcript_def transcribe_audio_def Let_def split: option.splits)

section \<open>Persona priority\<close>

text \<open>
  Claim C5. For every text, the persona chosen by the local heuristic is the result of
  the ordered rule list authority, then money, then banking, with the distracted
  parent as the fallback; and every text whose lower-cased form contains \<open>arrest\<close> is
  routed to the skeptic, whatever else it contains (a money marker such as \<open>lottery\<close>
  included), so never to the student.
\<close>

theorem persona_priority:
  "fst (heuristic_persona_and_language text) =
     first_match persona_rules ''parent'' (lower (or_empty text)) \<and>
   (contains ''arrest'' (lower (or_empty text)) \<longrightarrow>
      fst (heuristic_persona_and_language text) = ''skeptic'')"
proof -
  have a: "contains ''arrest'' (lower (or_empty text)) \<Longrightarrow>
           any_in authority_markers (lower (or_empty text))"
    by (rule any_in_member [of "''arrest''"]) (simp_all add: authority_markers_def)
  show ?thesis
    using a by (simp add: heuristic_persona_and_language_def first_match_def
        persona_rules_def Let_def)
qed

theorem persona_priority_witness:
  "contains ''arrest'' (lower (or_empty (Some ''You won the LOTTERY, pay or face Arrest''))) \<and>
   contains ''lottery'' (lower (or_empty (Some ''You won the LOTTERY, pay or face Arrest''))) \<and>
   fst (heuristic_persona_and_language (Some ''You won the LOTTERY, pay or face Arrest''))
     = ''skeptic''"
proof -
  have c: "contains ''arrest''
             (lower (or_empty (Some ''You won the LOTTERY, pay or face Arrest'')))"
    by code_simp
  have l: "contains ''lottery''
             (lower (or_empty (Some ''You won the LOTTERY, pay or face Arrest'')))"
    by code_simp
  show ?thesis
    using c l persona_priority [of "Some ''You won the LOTTERY, pay or face Arrest''"]
    by blast
qed

section \<open>Scam-category cascade\<close>

lemma first_match_none:
  "\<not> list_ex (\<lambda>rule. any_in (fst rule) s) rules \<Longrightarrow> first_match rules d s = d"
  by (induction rules) (auto simp: first_match_def)

lemma callback_scam_type:
  "check_and_send_callback e sid history m a = Inr (Some p) \<Longrightarrow>
   scamType p = infer_scam_type (lower (or_empty (msg_text m)))"
  by (auto simp: check_and_send_callback_def Let_def split: if_splits sum.splits)

text \<open>
  Claim C6. The inferred scam category is the result of the fixed ordered cascade,
  first match wins, with \<open>Unknown\<close> when no keyword set matches; every text containing
  \<open>bitcoin\<close> is classified \<open>Sextortion\<close> whatever else it contains (\<open>police\<close>
  included); and the category of a dispatched report is that cascade evaluated on
  the lower-cased text of the current message.
\<close>

theorem scam_type_cascade:
  "infer_scam_type s = first_match scam_cascade ''Unknown'' s \<and>
   (contains ''bitcoin'' s \<longrightarrow> infer_scam_type s = ''Sextortion'') \<and>
   (\<not> list_ex (\<lambda>rule. any_in (fst rule) s) scam_cascade \<longrightarrow> infer_scam_type s = ''Unknown'') \<and>
   (check_and_send_callback e sid history m a = Inr (Some p) \<longrightarrow>
      scamType p = first_match scam_cascade ''Unknown'' (lower (or_empty (msg_text m))))"
proof -
  have eq: "infer_scam_type t = first_match scam_cascade ''Unknown'' t" for t
    by (simp add: infer_scam_type_def first_match_def scam_cascade_def)
  have b: "contains ''bitcoin'' s \<Longrightarrow> infer_scam_type s = ''Sextortion''"
  proof -
    assume c: "contains ''bitcoin'' s"
    have "any_in [''bitcoin'', ''crypto'', ''blackmail'', ''video'', ''extortion'',
                  ''private videos''] s"
      by (rule any_in_member [OF _ c]) simp
    then show ?thesis by (simp add: infer_scam_type_def)
  qed
  have n: "\<not> list_ex (\<lambda>rule. any_in (fst rule) s) scam_cascade \<Longrightarrow>
           infer_scam_type s = ''Unknown''"
    by (simp add: eq first_match_none)
  show ?thesis
    using eq b n callback_scam_type [of e sid history m a p] by simp
qed

theorem scam_type_cascade_witness:
  "contains ''bitcoin'' (lower ''Pay in Bitcoin or the police will arrest you'') \<and>
   contains ''police'' (lower ''Pay in Bitcoin or the police will arrest you'') \<and>
   infer_scam_type (lower ''Pay in Bitcoin or the police will arrest you'') = ''Sextortion'' \<and>
   infer_scam_type (lower ''hello there'') = ''Unknown''"
proof -
  have c: "contains ''bitcoin'' (lower ''Pay in Bitcoin or the police will arrest you'')"
    by code_simp
  have p: "contains ''police'' (lower ''Pay in Bitcoin or the police will arrest you'')"
    by code_simp
  have u: "\<not> list_ex (\<lambda>rule. any_in (fst rule) (lower ''hello there'')) scam_cascade"
    by code_simp
  show ?thesis
    using c p u
      scam_type_cascade [of "lower ''Pay in Bitcoin or the police will arrest you''"]
      scam_type_cascade [of "lower ''hello there''"]
    by blast
qed

section \<open>The credit-card prefix gate\<close>

lemma starts_with_take: "starts_with p s \<longleftrightarrow> take (length p) s = p"
  by (induction p s rule: starts_with.induct) auto

lemma set_sorted_set [simp]: "set (sorted_set xs) = set xs"
  by (simp add: sorted_set_def)

lemma entity_map_credit_cards:
  "entity_map los t ''creditCards'' =
     Some (sorted_set (filter card_ok (findall credit_card_pattern t)))"
  by (simp add: entity_map_def entity_dict_def)

lemma prefix_forms:
  assumes len: "length ds = 16"
  shows "(hd ds = CHR ''4'' \<or> hd ds = CHR ''5'' \<or>
          take 2 ds \<in> set [''34'', ''37'', ''65'', ''60'', ''64''] \<or> take 4 ds = ''6011'')
         = prefix_check ds"
proof -
  obtain a r1 where 1: "ds = a # r1" using len by (cases ds) auto
  obtain b r2 where 2: "r1 = b # r2" using len 1 by (cases r1) auto
  obtain c r3 where 3: "r2 = c # r3" using len 1 2 by (cases r2) auto
  obtain d r4 where 4: "r3 = d # r4" using len 1 2 3 by (cases r3) auto
  show ?thesis
    unfolding 1 2 3 4 prefix_check_def by auto
qed

lemma card_ok_prefix:
  "card_ok cc \<longleftrightarrow>
     length (digits_of cc) = 16 \<and> prefix_check (digits_of cc) \<and>
     digits_of cc \<noteq> ''0000000000000000''"
  using prefix_forms [of "digits_of cc"] by (auto simp: card_ok_def Let_def)

lemma cards_4: "findall credit_card_pattern ''4111111111111111'' = [''4111111111111111'']"
  by code_simp

lemma cards_9: "findall credit_card_pattern ''9111111111111111'' = [''9111111111111111'']"
  by code_simp

lemma ok_4: "card_ok ''4111111111111111''"
  by code_simp

lemma ok_9: "\<not> card_ok ''9111111111111111''"
  by code_simp

lemma ss1: "sorted_set [x] = [x]" by (simp add: sorted_set_def)

lemma ss0: "sorted_set [] = []" by (simp add: sorted_set_def)

text \<open>
  Claim C8. A candidate match passes the source's card filter exactly when it has
  sixteen digits that pass the prefix check (leading 4; leading 5; leading 34, 37, 65,
  60 or 64; leading 6011) and are not all zeros; the \<open>creditCards\<close> category of every
  non-empty text holds exactly the candidates of the card pattern that pass; the
  sixteen-digit run \<open>4111111111111111\<close> is accepted, and the run \<open>9111111111111111\<close>,
  although a candidate, is rejected.
\<close>

theorem credit_card_gate:
  "card_check cc = Inr (length (digits_of cc) = 16 \<and> prefix_check (digits_of cc) \<and>
                        digits_of cc \<noteq> ''0000000000000000'') \<and>
   (t \<noteq> [] \<longrightarrow>
      (\<exists>d. extract_entities los (Some t) = Inr d \<and>
           set (get_list d ''creditCards'') =
             {c \<in> set (findall credit_card_pattern t). card_check c = Inr True})) \<and>
   (\<exists>d. extract_entities los (Some ''4111111111111111'') = Inr d \<and>
        d ''creditCards'' = Some [''4111111111111111'']) \<and>
   (\<exists>d. extract_entities los (Some ''9111111111111111'') = Inr d \<and>
        d ''creditCards'' = Some [] \<and>
        findall credit_card_pattern ''9111111111111111'' = [''9111111111111111''])"
proof -
  have 1: "card_check cc = Inr (length (digits_of cc) = 16 \<and> prefix_check (digits_of cc) \<and>
                        digits_of cc \<noteq> ''0000000000000000'')"
    by (simp add: card_check_ok card_ok_prefix)
  have 2: "t \<noteq> [] \<Longrightarrow> (\<exists>d. extract_entities los (Some t) = Inr d \<and>
           set (get_list d ''creditCards'') =
             {c \<in> set (findall credit_card_pattern t). card_check c = Inr True})"
    by (auto simp: extract_entities_text get_list_def entity_map_credit_cards card_check_ok)
  have 3: "\<exists>d. extract_entities los (Some ''4111111111111111'') = Inr d \<and>
        d ''creditCards'' = Some [''4111111111111111'']"
    by (simp add: extract_entities_text entity_map_credit_cards cards_4 ok_4 ss1)
  have 4: "\<exists>d. extract_entities los (Some ''9111111111111111'') = Inr d \<and>
        d ''creditCards'' = Some [] \<and>
        findall credit_card_pattern ''9111111111111111'' = [''9111111111111111'']"
    by (simp add: extract_entities_text entity_map_credit_cards cards_9 ok_9 ss0)
  show ?thesis using 1 2 3 4 by blast
qed

theorem credit_card_gate_witness:
  "card_check ''5500-0000 0000 0004'' = Inr True \<and>
   (\<exists>d. extract_entities sorted_list_of_set (Some ''pay 6011000000000004 now'') = Inr d \<and>
        set (get_list d ''creditCards'') = {''6011000000000004''})"
proof -
  have v: "length (digits_of ''5500-0000 0000 0004'') = 16 \<and>
           prefix_check (digits_of ''5500-0000 0000 0004'') \<and>
           digits_of ''5500-0000 0000 0004'' \<noteq> ''0000000000000000''"
    by code_simp
  have f: "findall credit_card_pattern ''pay 6011000000000004 now'' = [''6011000000000004'']"
    by code_simp
  have k: "card_check ''6011000000000004'' = Inr True"
    by code_simp
  have n: "''pay 6011000000000004 now'' \<noteq> []"
    by simp
  have s: "{c \<in> set (findall credit_card_pattern ''pay 6011000000000004 now'').
             card_check c = Inr True} = {''6011000000000004''}"
    unfolding f using k by auto
  show ?thesis
    using v n s
      credit_card_gate [of "''5500-0000 0000 0004''" "''pay 6011000000000004 now''"
        sorted_list_of_set]
    by simp
qed

section \<open>Phone numbers: one entry per normalised number\<close>
















section \<open>The callback gate\<close>

lemma joined_text_nonempty: "joined_text m h \<noteq> []"
  by (simp add: joined_text_def)

lemma extract_joined:
  "extract_entities los (Some (joined_text m h)) = Inr (entity_map los (joined_text m h))"
  by (simp add: extract_entities_text joined_text_nonempty)

lemma analyze_error:
  "predict_scam e (msg_text (with_transcript (message req))) = Inl err \<Longrightarrow>
   analyze e st req = (st, Inl (HTTP500 err))"
  by (simp add: analyze_def Let_def)

lemma analyze_not_scam:
  "predict_scam e (msg_text (with_transcript (message req))) = Inr False \<Longrightarrow>
   conversationHistory req = [] \<Longrightarrow>
   analyze e st req = (st, Inr (\<lparr>status = ''success'', reply = disengage_reply\<rparr>, None))"
  by (simp add: analyze_def Let_def extract_joined)

lemma analyze_scam:
  "predict_scam e (msg_text (with_transcript (message req))) = Inr b \<Longrightarrow>
   b \<or> conversationHistory req \<noteq> [] \<Longrightarrow>
   analyze e st req =
     (let msg = with_transcript (message req);
          history = conversationHistory req;
          current_state = (case st (sessionId req) of
                             None \<Rightarrow> new_session e (msg_text msg) | Some s \<Rightarrow> s);
          updated = update_session history (msg_text msg) current_state
      in (st(sessionId req \<mapsto> updated),
          Inr (\<lparr>status = ''success'',
                reply = generate_agent_reply e history (msg_text msg) (aggregated e req)
                          (persona updated) (language updated)\<rparr>,
               Some \<lparr>task_session_id = sessionId req, task_history = history,
                     task_current_msg = msg,
                     task_analysis = \<lparr>scam_detected = True,
                                      entities_found = aggregated e req\<rparr>\<rparr>)))"
  by (auto simp: analyze_def Let_def extract_joined aggregated_def)


lemma single_turn_scam:
  "any_in scam_keywords (lower t) \<Longrightarrow> is_scam_of e (single_turn sid t) = Inr True"
  by (simp add: is_scam_of_def single_turn_def with_transcript_def predict_scam_def)


lemma urgent_scam: "any_in scam_keywords (lower ''urgent'')" by code_simp




























section \<open>Totality of the extractor, and its result on an empty text\<close>

lemma extract_entities_returns: "\<exists>d. extract_entities los x = Inr d"
proof (cases x)
  case None
  then show ?thesis by (simp add: extract_entities_empty)
next
  case (Some t)
  then show ?thesis
    by (cases "t = []") (simp_all add: extract_entities_empty extract_entities_text)
qed

lemma dom_entity_map: "dom (entity_map los t) = set category_names"
  unfolding entity_map_def entity_dict_def category_names_def dom_map_of_conv_image_fst
  by simp

text \<open>
  On the empty text and on an absent text the guard \<open>if not text: return {}\<close> returns the
  empty dictionary: no category name is a key of it, so \<open>phoneNumbers\<close> is not mapped to the
  empty list, it is not mapped at all.
\<close>

theorem extract_empty_has_no_categories:
  "(\<exists>d. extract_entities sorted_list_of_set (Some []) = Inr d \<and>
        d ''phoneNumbers'' = None \<and> d ''suspiciousKeywords'' = None \<and>
        dom d \<inter> set category_names = {}) \<and>
   (\<exists>d. extract_entities sorted_list_of_set None = Inr d \<and>
        d ''phoneNumbers'' = None \<and> d ''suspiciousKeywords'' = None \<and>
        dom d \<inter> set category_names = {})"
  by (simp add: extract_entities_def)

text \<open>
  Claim C2, as the code has it. \<open>extract_entities\<close> returns on every input and raises on
  none. On an empty or absent text it returns the empty dictionary, in which no category
  name is present, so that a read with the default \<open>[]\<close> finds every category empty. On
  every non-empty text the keys of the result are exactly the fourteen category names.
\<close>

theorem extract_never_raises:
  "(\<exists>d. extract_entities los x = Inr d) \<and>
   extract_entities los None = Inr Map.empty \<and>
   extract_entities los (Some []) = Inr Map.empty \<and>
   get_list Map.empty k = [] \<and>
   (t \<noteq> [] \<longrightarrow>
      (\<exists>d. extract_entities los (Some t) = Inr d \<and> dom d = set category_names))"
  using extract_entities_returns [of los x]
  by (simp add: extract_entities_empty extract_entities_text dom_entity_map get_list_def)

theorem extract_never_raises_witness:
  "\<exists>d. extract_entities sorted_list_of_set (Some ''hi'') = Inr d \<and>
       dom d = set category_names \<and> length category_names = 14"
  using extract_never_raises [of sorted_list_of_set "Some ''hi''" "''phoneNumbers''" "''hi''"]
  by (simp add: category_names_def)

section \<open>Routing by the language model\<close>

lemma split_on_nonempty: "split_on sep s \<noteq> []"
  by (induction s) (auto split: list.splits)

lemma route_parts_length: "1 \<le> length (route_parts r)"
  using split_on_nonempty [of "CHR ''|''" "lower (strip r)"]
  by (cases "route_parts r") (simp_all add: route_parts_def)

lemma parse_route_persona:
  "fst (parse_route r) =
     (case find (\<lambda>p. contains p (route_parts r ! 0)) persona_keys of
        None \<Rightarrow> ''grandma'' | Some p \<Rightarrow> p)"
  using route_parts_length [of r]
  by (simp add: parse_route_def Let_def route_parts_def)

lemma parse_route_language:
  "snd (parse_route r) =
     (if 2 \<le> length (route_parts r) \<and>
         (contains ''hinglish'' (route_parts r ! 1) \<or> contains ''hindi'' (route_parts r ! 1))
      then ''hinglish'' else ''english'')"
  by (simp add: parse_route_def Let_def route_parts_def)

lemma parse_route_known: "fst (parse_route r) \<in> set persona_keys"
proof (cases "find (\<lambda>p. contains p (route_parts r ! 0)) persona_keys")
  case None
  then show ?thesis by (simp add: parse_route_persona persona_keys_def)
next
  case (Some p)
  then have "p \<in> set persona_keys" by (auto simp: find_Some_iff)
  then show ?thesis using Some by (simp add: parse_route_persona)
qed

lemma parse_route_default:
  "\<not> list_ex (\<lambda>p. contains p (route_parts r ! 0)) persona_keys \<Longrightarrow>
   fst (parse_route r) = ''grandma''"
proof -
  assume "\<not> list_ex (\<lambda>p. contains p (route_parts r ! 0)) persona_keys"
  then have "find (\<lambda>p. contains p (route_parts r ! 0)) persona_keys = None"
    unfolding find_None_iff list_ex_iff by blast
  then show ?thesis by (simp add: parse_route_persona)
qed

lemma parse_route_contained:
  "fst (parse_route r) \<noteq> ''grandma'' \<Longrightarrow> contains (fst (parse_route r)) (route_parts r ! 0)"
proof (cases "find (\<lambda>p. contains p (route_parts r ! 0)) persona_keys")
  case None
  assume "fst (parse_route r) \<noteq> ''grandma''"
  then show ?thesis using None by (simp add: parse_route_persona)
next
  case (Some p)
  then have "contains p (route_parts r ! 0)" by (auto simp: find_Some_iff)
  then show ?thesis using Some by (simp add: parse_route_persona)
qed

text \<open>
  A response that names no persona and no language is parsed to the presets \<open>grandma\<close> and
  \<open>english\<close>, not routed by the heuristic, which sends "police arrest" to the skeptic. A
  response that names a persona and no language keeps the parsed persona and presets the
  language alone: the heuristic would have answered "bhai lottery" in Hinglish.
\<close>

theorem routing_defaults_unparsed_half:
  "select_persona_and_language
     \<lparr>classifier = None, router = Some (\<lambda>t. Inr ''banana''),
      generate_agent_reply = (\<lambda>h t d p l. ''ok''), set_order = sorted_list_of_set, clock = 0\<rparr>
     (Some ''police arrest'') = (''grandma'', ''english'') \<and>
   heuristic_persona_and_language (Some ''police arrest'') = (''skeptic'', ''english'') \<and>
   select_persona_and_language
     \<lparr>classifier = None, router = Some (\<lambda>t. Inr ''student''),
      generate_agent_reply = (\<lambda>h t d p l. ''ok''), set_order = sorted_list_of_set, clock = 0\<rparr>
     (Some ''bhai lottery'') = (''student'', ''english'') \<and>
   heuristic_persona_and_language (Some ''bhai lottery'') = (''student'', ''hinglish'')"
proof -
  have a: "parse_route ''banana'' = (''grandma'', ''english'')" by code_simp
  have b: "heuristic_persona_and_language (Some ''police arrest'') = (''skeptic'', ''english'')"
    by code_simp
  have c: "parse_route ''student'' = (''student'', ''english'')" by code_simp
  have d: "heuristic_persona_and_language (Some ''bhai lottery'') = (''student'', ''hinglish'')"
    by code_simp
  show ?thesis
    by (simp add: select_persona_and_language_def a b c d)
qed

lemma parse_route_first_key:
  "fst (parse_route r) =
     (if contains ''grandma'' (route_parts r ! 0) then ''grandma''
      else if contains ''student'' (route_parts r ! 0) then ''student''
      else if contains ''skeptic'' (route_parts r ! 0) then ''skeptic''
      else if contains ''parent'' (route_parts r ! 0) then ''parent''
      else ''grandma'')"
  by (simp add: parse_route_persona persona_keys_def)

lemma two_keys_parts:
  "route_parts ''student or skeptic|english'' = [''student or skeptic'', ''english'']"
  by code_simp

lemma two_keys_route: "parse_route ''student or skeptic|english'' = (''student'', ''english'')"
  by code_simp

lemma grandma_student_route: "parse_route ''grandma student|hindi'' = (''grandma'', ''hinglish'')"
  by code_simp

lemma padded_parts: "route_parts '' Skeptic|Hinglish '' = [''skeptic'', ''hinglish'']"
  by code_simp

text \<open>
  Claim C7, as the code has it. The heuristic decides both persona and language exactly
  when no language model is configured or the routing call raises. A response that was
  received is parsed and the heuristic is not consulted. The response is stripped,
  lower-cased and split at the pipe character. The persona is the first of the keys
  \<open>grandma\<close>, \<open>student\<close>, \<open>skeptic\<close>, \<open>parent\<close>, in this order, that the first part contains,
  and the preset \<open>grandma\<close> when it contains none: "student or skeptic|english" gives the
  student, "grandma student|hindi" the grandma. The language is \<open>hinglish\<close> when a second
  part exists and contains \<open>hinglish\<close> or \<open>hindi\<close>, and the preset \<open>english\<close> otherwise.
\<close>

theorem llm_routing:
  "(router e = None \<longrightarrow>
      select_persona_and_language e x = heuristic_persona_and_language x) \<and>
   (router e = Some ask \<and> ask x = Inl err \<longrightarrow>
      select_persona_and_language e x = heuristic_persona_and_language x) \<and>
   (router e = Some ask \<and> ask x = Inr r \<longrightarrow>
      select_persona_and_language e x = parse_route r \<and>
      route_parts r = split_on CHR ''|'' (lower (strip r)) \<and>
      fst (parse_route r) =
        (if contains ''grandma'' (route_parts r ! 0) then ''grandma''
         else if contains ''student'' (route_parts r ! 0) then ''student''
         else if contains ''skeptic'' (route_parts r ! 0) then ''skeptic''
         else if contains ''parent'' (route_parts r ! 0) then ''parent''
         else ''grandma'') \<and>
      fst (parse_route r) \<in> set persona_keys \<and>
      (fst (parse_route r) \<noteq> ''grandma'' \<longrightarrow>
         contains (fst (parse_route r)) (route_parts r ! 0)) \<and>
      (\<not> list_ex (\<lambda>p. contains p (route_parts r ! 0)) persona_keys \<longrightarrow>
         fst (parse_route r) = ''grandma'') \<and>
      snd (parse_route r) =
        (if 2 \<le> length (route_parts r) \<and>
            (contains ''hinglish'' (route_parts r ! 1) \<or> contains ''hindi'' (route_parts r ! 1))
         then ''hinglish'' else ''english'')) \<and>
   route_parts '' Skeptic|Hinglish '' = [''skeptic'', ''hinglish''] \<and>
   route_parts ''student or skeptic|english'' = [''student or skeptic'', ''english''] \<and>
   parse_route ''student or skeptic|english'' = (''student'', ''english'') \<and>
   parse_route ''grandma student|hindi'' = (''grandma'', ''hinglish'')"
  using parse_route_known [of r] parse_route_contained [of r] parse_route_default [of r]
    parse_route_language [of r] parse_route_first_key [of r]
  by (simp add: select_persona_and_language_def two_keys_parts two_keys_route
        grandma_student_route padded_parts route_parts_def [symmetric])

theorem llm_routing_witness:
  "select_persona_and_language
     \<lparr>classifier = None, router = Some (\<lambda>t. Inr '' Skeptic|Hinglish ''),
      generate_agent_reply = (\<lambda>h t d p l. ''ok''), set_order = sorted_list_of_set, clock = 0\<rparr>
     (Some ''hello'') = (''skeptic'', ''hinglish'') \<and>
   select_persona_and_language
     \<lparr>classifier = None, router = Some (\<lambda>t. Inr ''student or skeptic|english''),
      generate_agent_reply = (\<lambda>h t d p l. ''ok''), set_order = sorted_list_of_set, clock = 0\<rparr>
     (Some ''police arrest'') = (''student'', ''english'') \<and>
   select_persona_and_language
     \<lparr>classifier = None, router = Some (\<lambda>t. Inl CollaboratorError),
      generate_agent_reply = (\<lambda>h t d p l. ''ok''), set_order = sorted_list_of_set, clock = 0\<rparr>
     (Some ''police'') = (''skeptic'', ''english'') \<and>
   select_persona_and_language
     \<lparr>classifier = None, router = None,
      generate_agent_reply = (\<lambda>h t d p l. ''ok''), set_order = sorted_list_of_set, clock = 0\<rparr>
     (Some ''police'') = (''skeptic'', ''english'')"
proof -
  have a: "parse_route '' Skeptic|Hinglish '' = (''skeptic'', ''hinglish'')" by code_simp
  have b: "heuristic_persona_and_language (Some ''police'') = (''skeptic'', ''english'')"
    by code_simp
  show ?thesis
    using a b
      llm_routing [of "\<lparr>classifier = None, router = Some (\<lambda>t. Inr '' Skeptic|Hinglish ''),
          generate_agent_reply = (\<lambda>h t d p l. ''ok''), set_order = sorted_list_of_set,
          clock = 0\<rparr>" "Some ''hello''" "\<lambda>t. Inr '' Skeptic|Hinglish ''" CollaboratorError
          "'' Skeptic|Hinglish ''"]
      llm_routing [of "\<lparr>classifier = None,
          router = Some (\<lambda>t. Inr ''student or skeptic|english''),
          generate_agent_reply = (\<lambda>h t d p l. ''ok''), set_order = sorted_list_of_set,
          clock = 0\<rparr>" "Some ''police arrest''" "\<lambda>t. Inr ''student or skeptic|english''"
          CollaboratorError "''student or skeptic|english''"]
      llm_routing [of "\<lparr>classifier = None, router = Some (\<lambda>t. Inl CollaboratorError),
          generate_agent_reply = (\<lambda>h t d p l. ''ok''), set_order = sorted_list_of_set,
          clock = 0\<rparr>" "Some ''police''" "\<lambda>t. Inl CollaboratorError" CollaboratorError "''x''"]
      llm_routing [of "\<lparr>classifier = None, router = None,
          generate_agent_reply = (\<lambda>h t d p l. ''ok''), set_order = sorted_list_of_set,
          clock = 0\<rparr>" "Some ''police''" "\<lambda>t. Inl CollaboratorError" CollaboratorError "''x''"]
    by simp
qed

section \<open>The session counters across calls\<close>

lemma is_scam_of_cases:
  "is_scam_of e req = Inr True \<or> is_scam_of e req = Inr False \<or> (\<exists>err. is_scam_of e req = Inl err)"
  by (cases "is_scam_of e req") auto

lemma analyze_store_scam:
  "is_scam_of e req = Inr True \<Longrightarrow>
   fst (analyze e st req) =
     st(sessionId req \<mapsto>
          update_session (conversationHistory req) (msg_text (message req))
            (case st (sessionId req) of
               None \<Rightarrow> new_session e (msg_text (message req)) | Some s \<Rightarrow> s))"
proof (cases "predict_scam e (msg_text (with_transcript (message req)))")
  case (Inl err)
  assume "is_scam_of e req = Inr True"
  then show ?thesis using Inl by (simp add: is_scam_of_def)
next
  case (Inr b)
  assume "is_scam_of e req = Inr True"
  then have "b \<or> conversationHistory req \<noteq> []" using Inr by (simp add: is_scam_of_def)
  then show ?thesis
    using analyze_scam [OF Inr, of st] by (simp add: Let_def with_transcript_same)
qed

lemma analyze_store_other:
  "is_scam_of e req \<noteq> Inr True \<Longrightarrow> fst (analyze e st req) = st"
proof (cases "predict_scam e (msg_text (with_transcript (message req)))")
  case (Inl err)
  then show ?thesis by (simp add: analyze_error)
next
  case (Inr b)
  assume "is_scam_of e req \<noteq> Inr True"
  then have "b = False" "conversationHistory req = []" using Inr by (auto simp: is_scam_of_def)
  then show ?thesis using Inr analyze_not_scam [of e req st] by simp
qed

lemma add_flag_counters [simp]:
  "turn_count (add_flag f s) = turn_count s" "questions_asked (add_flag f s) = questions_asked s"
  by (simp_all add: add_flag_def)

lemma update_session_turn_count:
  "turn_count (update_session history t s) = length history + 1"
  by (simp add: update_session_def Let_def)

lemma update_session_questions:
  "questions_asked (update_session history t s) = max (questions_count history) (questions_asked s)"
  by (simp add: update_session_def Let_def)

lemma new_session_questions: "questions_asked (new_session e t) = 0"
  by (simp add: new_session_def split: prod.splits)

lemma analyze_counters:
  assumes "is_scam_of e req = Inr True"
  shows "\<exists>s'. fst (analyze e st req) (sessionId req) = Some s' \<and>
           turn_count s' = length (conversationHistory req) + 1 \<and>
           questions_asked s' =
             max (questions_count (conversationHistory req)) (questions_before st (sessionId req))"
  unfolding analyze_store_scam [OF assms]
  by (simp add: update_session_turn_count update_session_questions questions_before_def
        new_session_questions split: option.splits)

lemma analyze_questions_step:
  assumes "st sid = Some s"
  shows "\<exists>s'. fst (analyze e st req) sid = Some s' \<and> questions_asked s \<le> questions_asked s'"
proof (cases "is_scam_of e req = Inr True")
  case True
  show ?thesis
  proof (cases "sid = sessionId req")
    case same: True
    then show ?thesis
      using analyze_counters [OF True, of st] assms by (auto simp: questions_before_def)
  next
    case False
    then show ?thesis using assms by (simp add: analyze_store_scam [OF True])
  qed
next
  case False
  then show ?thesis using assms by (simp add: analyze_store_other)
qed

lemma analyze_seq_questions:
  "st sid = Some s \<Longrightarrow>
   \<exists>s'. analyze_seq e st reqs sid = Some s' \<and> questions_asked s \<le> questions_asked s'"
proof (induction reqs arbitrary: st s)
  case Nil
  then show ?case by (simp add: analyze_seq_def)
next
  case (Cons req reqs)
  obtain s1 where 1: "fst (analyze e st req) sid = Some s1" "questions_asked s \<le> questions_asked s1"
    using analyze_questions_step [of st sid s e req] Cons.prems by blast
  obtain s' where 2: "analyze_seq e (fst (analyze e st req)) reqs sid = Some s'"
      "questions_asked s1 \<le> questions_asked s'"
    using Cons.IH [of "fst (analyze e st req)" s1] 1(1) by blast
  have "analyze_seq e st (req # reqs) = analyze_seq e (fst (analyze e st req)) reqs"
    by (simp add: analyze_seq_def)
  then show ?case using 1 2 by auto
qed

lemma fourth_turn_scam: "is_scam_of e fourth_turn = Inr True"
  by (simp add: is_scam_of_def with_transcript_same fourth_turn_def plain_message_def
        predict_scam_def)

lemma hello_not_scam: "is_scam_of offline_env (single_turn sid ''hello'') = Inr False"
proof -
  have k: "any_in scam_keywords (lower ''hello'') = False" by code_simp
  show ?thesis
    by (simp add: is_scam_of_def with_transcript_same single_turn_def predict_scam_def
          classifier_fires_def offline_env_def k)
qed

lemma fourth_turn_questions: "questions_count (conversationHistory fourth_turn) = 1"
  by (simp add: fourth_turn_def plain_message_def questions_count_def or_empty_def)

lemma fourth_turn_fields:
  "sessionId fourth_turn = ''s1''" "length (conversationHistory fourth_turn) = 3"
  by (simp_all add: fourth_turn_def)

lemma analyze_turn_count:
  "is_scam_of e req = Inr True \<Longrightarrow>
   map_option turn_count (fst (analyze e st req) (sessionId req)) =
     Some (length (conversationHistory req) + 1)"
  using analyze_counters [of e req st] by auto

text \<open>
  The turn count is recomputed from the supplied history and can decrease: after a call
  with a history of three messages it is 4, and after a next scam-like call on the same
  conversation id with an empty history it is 1. It is not set on every call either: a
  next call that is not scam-like leaves it at 4.
\<close>

theorem turn_count_decreases:
  "map_option turn_count (analyze_seq offline_env Map.empty [fourth_turn] ''s1'') = Some 4 \<and>
   map_option turn_count
     (analyze_seq offline_env Map.empty [fourth_turn, single_turn ''s1'' ''urgent''] ''s1'')
     = Some 1 \<and>
   map_option turn_count
     (analyze_seq offline_env Map.empty [fourth_turn, single_turn ''s1'' ''hello''] ''s1'')
     = Some 4"
proof -
  have a: "map_option turn_count (fst (analyze offline_env Map.empty fourth_turn) ''s1'') = Some 4"
    using analyze_turn_count [OF fourth_turn_scam, of offline_env Map.empty]
    by (simp add: fourth_turn_fields)
  have u: "is_scam_of offline_env (single_turn ''s1'' ''urgent'') = Inr True"
    by (rule single_turn_scam) (rule urgent_scam)
  have b: "map_option turn_count
             (fst (analyze offline_env st (single_turn ''s1'' ''urgent'')) ''s1'') = Some 1" for st
    using analyze_turn_count [OF u, of st] by (simp add: single_turn_def)
  have c: "fst (analyze offline_env st (single_turn ''s1'' ''hello'')) = st" for st
    by (rule analyze_store_other) (simp add: hello_not_scam)
  show ?thesis
    by (simp add: analyze_seq_def a b c)
qed

text \<open>
  Claim C9, as the code has it. On every scam-like call the session of the conversation id
  has its turn count set to the supplied history length plus one, and its questions-asked
  count set to the maximum of the count over the supplied history and its previous value
  (zero for a new session). A call that is not scam-like, or on which the classifier raises,
  leaves the session store as it was. Across any sequence of calls, a session that exists
  keeps existing and its questions-asked count never decreases.
\<close>

theorem session_counters:
  "(is_scam_of e req = Inr True \<longrightarrow>
      (\<exists>s'. fst (analyze e st req) (sessionId req) = Some s' \<and>
            turn_count s' = length (conversationHistory req) + 1 \<and>
            questions_asked s' =
              max (questions_count (conversationHistory req))
                  (questions_before st (sessionId req)))) \<and>
   (is_scam_of e req \<noteq> Inr True \<longrightarrow> fst (analyze e st req) = st) \<and>
   (st sid = Some s \<longrightarrow>
      (\<exists>s'. analyze_seq e st reqs sid = Some s' \<and> questions_asked s \<le> questions_asked s'))"
  using analyze_counters [of e req st] analyze_store_other [of e req st]
    analyze_seq_questions [of st sid s e reqs]
  by blast

theorem session_counters_witness:
  "(\<exists>s'. fst (analyze offline_env Map.empty fourth_turn) ''s1'' = Some s' \<and>
         turn_count s' = 4 \<and> questions_asked s' = 1) \<and>
   (\<exists>s'. analyze_seq offline_env [''s1'' \<mapsto> asked_five]
           [fourth_turn, single_turn ''s1'' ''urgent''] ''s1'' = Some s' \<and>
         5 \<le> questions_asked s')"
proof -
  have q: "questions_before Map.empty ''s1'' = 0" by (simp add: questions_before_def)
  have f: "questions_asked asked_five = 5" by (simp add: asked_five_def)
  show ?thesis
    using fourth_turn_scam [of offline_env] fourth_turn_questions q fourth_turn_fields f
      session_counters [of offline_env fourth_turn Map.empty "''s2''" asked_five "[]"]
      session_counters [of offline_env fourth_turn "[''s1'' \<mapsto> asked_five]" "''s1''"
        asked_five "[fourth_turn, single_turn ''s1'' ''urgent'']"]
    by simp
qed

section \<open>History makes a conversation scam-like\<close>

lemma predict_scam_text:
  "\<exists>b. predict_scam e (Some t) = Inr b"
  by (auto simp: predict_scam_def)

lemma predict_scam_absent:
  "\<not> classifier_fires e None \<Longrightarrow> predict_scam e None = Inl AttributeError"
  by (simp add: predict_scam_def)

lemma analyze_history_text:
  assumes h: "conversationHistory req \<noteq> []" and t: "msg_text (message req) = Some t"
  shows "\<exists>s' tk. analyze e st req =
           (st(sessionId req \<mapsto> s'),
            Inr (\<lparr>status = ''success'',
                  reply = generate_agent_reply e (conversationHistory req) (Some t)
                            (aggregated e req) (persona s') (language s')\<rparr>, Some tk)) \<and>
           task_session_id tk = sessionId req \<and> scam_detected (task_analysis tk) \<and>
           turn_count s' = length (conversationHistory req) + 1"
proof -
  obtain b where b: "predict_scam e (msg_text (with_transcript (message req))) = Inr b"
    using predict_scam_text [of e t] t by (auto simp: with_transcript_same)
  define s' where
    "s' = update_session (conversationHistory req) (Some t)
            (case st (sessionId req) of
               None \<Rightarrow> new_session e (msg_text (message req)) | Some s \<Rightarrow> s)"
  define tk where
    "tk = \<lparr>task_session_id = sessionId req, task_history = conversationHistory req,
           task_current_msg = message req,
           task_analysis = \<lparr>scam_detected = True, entities_found = aggregated e req\<rparr>\<rparr>"
  have "analyze e st req =
           (st(sessionId req \<mapsto> s'),
            Inr (\<lparr>status = ''success'',
                  reply = generate_agent_reply e (conversationHistory req) (Some t)
                            (aggregated e req) (persona s') (language s')\<rparr>, Some tk))"
    using analyze_scam [OF b, of st] h t
    by (simp add: Let_def with_transcript_same s'_def tk_def)
  moreover have "task_session_id tk = sessionId req" "scam_detected (task_analysis tk)"
    by (simp_all add: tk_def)
  moreover have "turn_count s' = length (conversationHistory req) + 1"
    by (simp add: s'_def update_session_turn_count)
  ultimately show ?thesis by blast
qed

lemma analyze_history_absent:
  assumes "msg_text (message req) = None" and "\<not> classifier_fires e None"
  shows "analyze e st req = (st, Inl (HTTP500 AttributeError))"
  using assms by (simp add: analyze_error with_transcript_same predict_scam_absent)

lemma analyze_disengages:
  assumes "snd (analyze e st req) = Inr (resp, None)"
  shows "conversationHistory req = [] \<and> predict_scam e (msg_text (message req)) = Inr False \<and>
         reply resp = disengage_reply \<and> fst (analyze e st req) = st"
proof (cases "predict_scam e (msg_text (with_transcript (message req)))")
  case (Inl err)
  then show ?thesis using assms by (simp add: analyze_error)
next
  case (Inr b)
  show ?thesis
  proof (cases "b \<or> conversationHistory req \<noteq> []")
    case True
    then show ?thesis using assms analyze_scam [OF Inr True, of st] by (simp add: Let_def)
  next
    case False
    then show ?thesis
      using assms Inr analyze_not_scam [of e req st] by (auto simp: with_transcript_same)
  qed
qed

text \<open>
  Claim C10. A request with a non-empty history and a present message text is treated as
  scam-like whatever the text and the classifier say: the session of its conversation id is
  created or updated, the reply is the generated persona reply, and the callback evaluation
  is scheduled. The fixed disengagement reply, with nothing scheduled, is returned only when
  the history is empty and the classifier is negative on the message, and the store is then
  unchanged. A request whose message text is absent and on which the first classifier tier
  does not fire is not treated as scam-like, history or not: the second tier raises on it and
  the call ends in the 500 response, with the store unchanged and no callback.
\<close>

theorem history_is_scam_like:
  "(conversationHistory req \<noteq> [] \<and> msg_text (message req) = Some t \<longrightarrow>
      (\<exists>s' tk. analyze e st req =
           (st(sessionId req \<mapsto> s'),
            Inr (\<lparr>status = ''success'',
                  reply = generate_agent_reply e (conversationHistory req) (Some t)
                            (aggregated e req) (persona s') (language s')\<rparr>, Some tk)) \<and>
           task_session_id tk = sessionId req \<and> scam_detected (task_analysis tk) \<and>
           turn_count s' = length (conversationHistory req) + 1)) \<and>
   (msg_text (message req) = None \<and> \<not> classifier_fires e None \<longrightarrow>
      analyze e st req = (st, Inl (HTTP500 AttributeError))) \<and>
   (snd (analyze e st req) = Inr (resp, None) \<longrightarrow>
      conversationHistory req = [] \<and> predict_scam e (msg_text (message req)) = Inr False \<and>
      reply resp = disengage_reply \<and> fst (analyze e st req) = st)"
  using analyze_history_text [of req t e st] analyze_history_absent [of req e st]
    analyze_disengages [of e st req resp]
  by blast

theorem history_is_scam_like_witness:
  "conversationHistory null_text_request \<noteq> [] \<and>
   analyze offline_env Map.empty null_text_request = (Map.empty, Inl (HTTP500 AttributeError)) \<and>
   report_of offline_env Map.empty null_text_request = None"
proof -
  have a: "msg_text (message null_text_request) = None"
    "conversationHistory null_text_request \<noteq> []"
    by (simp_all add: null_text_request_def)
  have b: "\<not> classifier_fires offline_env None"
    by (simp add: classifier_fires_def offline_env_def)
  have c: "analyze offline_env Map.empty null_text_request =
             (Map.empty, Inl (HTTP500 AttributeError))"
    using a b history_is_scam_like [of null_text_request "''x''" offline_env Map.empty
        "\<lparr>status = ''success'', reply = disengage_reply\<rparr>"]
    by simp
  show ?thesis using a c by (simp add: report_of_def)
qed

section \<open>Order and duplicates in the categories\<close>

lemma descending_each_once: "lists_each_once descending"
  by (simp add: lists_each_once_def descending_def)

lemma sorted_set_sorted: "sorted (sorted_set xs)" "distinct (sorted_set xs)"
  by (simp_all add: sorted_set_def)

lemma entity_map_keywords:
  "entity_map los t ''suspiciousKeywords'' = Some (los (found_keywords t))"
  by (simp add: entity_map_def entity_dict_def found_keywords_def)

lemma entity_dict_value:
  assumes "entity_dict los t cards phones seen k = Some v" and "k \<noteq> ''suspiciousKeywords''"
  shows "\<exists>xs. v = sorted_set xs"
proof -
  have "(k, v) \<in> set
       [(''phoneNumbers'', sorted_set phones),
        (''bankAccounts'',
           sorted_set (clean_banks phones seen (findall bank_account_pattern t))),
        (''upiIds'', sorted_set (upis_of t)),
        (''phishingLinks'', sorted_set (findall_ic url_pattern t)),
        (''emailAddresses'', sorted_set (findall email_pattern t)),
        (''creditCards'', sorted_set cards),
        (''bitcoinAddresses'',
           sorted_set (findall bitcoin_pattern_legacy t @ findall bitcoin_pattern_bech32 t)),
        (''telegramIds'', sorted_set (findall telegram_pattern t)),
        (''trackingNumbers'', sorted_set (findall_ic tracking_pattern t)),
        (''ids'', sorted_set (findall_ic id_pattern t @ findall_ic order_pattern t)),
        (''aadharNumbers'', sorted_set (findall aadhar_pattern t)),
        (''panNumbers'', sorted_set (findall pan_pattern t)),
        (''ifscCodes'', sorted_set (findall ifsc_pattern t)),
        (''suspiciousKeywords'',
           los (set (filter (\<lambda>word. contains word (lower t)) suspicious_keywords_list)))]"
    using assms(1) unfolding entity_dict_def by (rule map_of_SomeD)
  then have "v \<in> sorted_set ` UNIV \<or> k = ''suspiciousKeywords''"
    unfolding set_simps insert_iff empty_iff prod.inject by blast
  then show ?thesis using assms(2) by blast
qed

lemma entity_map_value:
  "entity_map los t k = Some v \<Longrightarrow> k \<noteq> ''suspiciousKeywords'' \<Longrightarrow> \<exists>xs. v = sorted_set xs"
  unfolding entity_map_def by (rule entity_dict_value)

lemma keywords_each_once:
  "lists_each_once los \<Longrightarrow>
   set (los (found_keywords t)) = found_keywords t \<and> distinct (los (found_keywords t))"
  by (simp add: lists_each_once_def found_keywords_def)

lemma entity_map_distinct:
  assumes "lists_each_once los"
  shows "distinct (get_list (entity_map los t) k)"
proof (cases "entity_map los t k")
  case None
  then show ?thesis by (simp add: get_list_def)
next
  case (Some v)
  show ?thesis
  proof (cases "k = ''suspiciousKeywords''")
    case True
    then show ?thesis
      using keywords_each_once [OF assms, of t] by (simp add: get_list_def entity_map_keywords)
  next
    case False
    then obtain xs where "v = sorted_set xs"
      using entity_map_value [OF Some] by blast
    then show ?thesis using Some by (simp add: get_list_def sorted_set_sorted)
  qed
qed

lemma entity_map_sorted:
  assumes "k \<noteq> ''suspiciousKeywords''"
  shows "sorted (get_list (entity_map los t) k)"
proof (cases "entity_map los t k")
  case None
  then show ?thesis by (simp add: get_list_def)
next
  case (Some v)
  then obtain xs where "v = sorted_set xs"
    using entity_map_value [OF Some assms] by blast
  then show ?thesis using Some by (simp add: get_list_def sorted_set_sorted)
qed

lemma block_urgent_found: "found_keywords ''block urgent'' = {''urgent'', ''block''}"
proof -
  have "filter (\<lambda>word. contains word (lower ''block urgent'')) suspicious_keywords_list =
          [''urgent'', ''block'']"
    by code_simp
  then show ?thesis by (simp add: found_keywords_def)
qed

lemma block_urgent_descending: "descending {''urgent'', ''block''} = [''urgent'', ''block'']"
proof -
  have "rev (sorted_list_of_set (set [''urgent'', ''block''])) = [''urgent'', ''block'']"
    by code_simp
  then show ?thesis by (simp add: descending_def)
qed

lemma urgent_block_unsorted: "\<not> sorted [''urgent'', ''block'']"
  by code_simp

text \<open>
  Claim C4. For every non-empty text and every iteration order of sets that lists each
  element once, no category of the result holds an element twice, and every category other
  than \<open>suspiciousKeywords\<close> is in ascending order. The \<open>suspiciousKeywords\<close> category is
  \<open>list(set(...))\<close> with no \<open>sorted\<close> around it: it holds the found keywords in the
  iteration order of the set, whatever that is. Under the descending order the text
  "block urgent" yields \<open>urgent\<close> before \<open>block\<close>.
\<close>

theorem categories_deduplicated:
  "lists_each_once los \<and> t \<noteq> [] \<longrightarrow>
     (\<exists>d. extract_entities los (Some t) = Inr d \<and>
          (\<forall>k \<in> set category_names. distinct (get_list d k)) \<and>
          (\<forall>k \<in> set category_names. k \<noteq> ''suspiciousKeywords'' \<longrightarrow> sorted (get_list d k)) \<and>
          get_list d ''suspiciousKeywords'' = los (found_keywords t) \<and>
          set (get_list d ''suspiciousKeywords'') = found_keywords t)"
proof
  assume a: "lists_each_once los \<and> t \<noteq> []"
  have "get_list (entity_map los t) ''suspiciousKeywords'' = los (found_keywords t)"
    by (simp add: get_list_def entity_map_keywords)
  then show "\<exists>d. extract_entities los (Some t) = Inr d \<and>
          (\<forall>k \<in> set category_names. distinct (get_list d k)) \<and>
          (\<forall>k \<in> set category_names. k \<noteq> ''suspiciousKeywords'' \<longrightarrow> sorted (get_list d k)) \<and>
          get_list d ''suspiciousKeywords'' = los (found_keywords t) \<and>
          set (get_list d ''suspiciousKeywords'') = found_keywords t"
    using a entity_map_distinct [of los t] entity_map_sorted [of _ los t]
      keywords_each_once [of los t]
    by (simp add: extract_entities_text)
qed

theorem categories_deduplicated_witness:
  "lists_each_once descending \<and>
   (\<exists>d. extract_entities descending (Some ''block urgent'') = Inr d \<and>
        get_list d ''suspiciousKeywords'' = [''urgent'', ''block''] \<and>
        distinct (get_list d ''suspiciousKeywords'') \<and>
        \<not> sorted (get_list d ''suspiciousKeywords''))"
proof -
  have n: "''block urgent'' \<noteq> []" by simp
  have k: "''suspiciousKeywords'' \<in> set category_names" by (simp add: category_names_def)
  obtain d where d: "extract_entities descending (Some ''block urgent'') = Inr d"
      "\<forall>k \<in> set category_names. distinct (get_list d k)"
      "get_list d ''suspiciousKeywords'' = descending (found_keywords ''block urgent'')"
    using categories_deduplicated [of descending "''block urgent''"] descending_each_once n
    by blast
  have "get_list d ''suspiciousKeywords'' = [''urgent'', ''block'']"
    using d(3) by (simp add: block_urgent_found block_urgent_descending)
  then show ?thesis
    using d(1) d(2) k descending_each_once urgent_block_unsorted by auto
qed

end
